theory Spec2Isabelle
  imports Main "HOL-Library.Char_ord" "HOL-Library.List_Lexorder"
begin

section \<open>Go values, panics and formatting\<close>

text \<open>
  The kernel is written in Go. A run-time panic (nil dereference, failed type assertion,
  slice bound out of range) is a result of its own, distinct from a returned \<open>error\<close>:
  a function that can panic returns \<open>panic + 'a\<close>, with \<open>Inl\<close> the panic.

  \<open>interface{}\<close> values that the code stores in metadata, event data, adapter parameters
  and adapter results are values of the type \<open>val\<close>. Go maps that the code ranges over or
  measures with \<open>len\<close> are association lists with distinct keys; maps that are only looked
  up are partial functions. A map that the code compares with \<open>nil\<close> is an \<open>option\<close>.

  \<open>crypto/sha256\<close> followed by \<open>hex.EncodeToString\<close> is the parameter \<open>H\<close> of every
  function that hashes; \<open>time.Now()\<close> is the parameter \<open>now\<close> (nanoseconds since the
  epoch), one reading per modelled call.
\<close>

datatype panic = NilDereference | TypeAssertion | SliceBounds

datatype val =
    VNil
  | VStr string
  | VInt int
  | VBool bool
  | VStrs "string list"
  | VMap "(string \<times> val) list"

definition digit_char :: "nat \<Rightarrow> char" where
  "digit_char d =
     (if d = 0 then CHR ''0'' else if d = 1 then CHR ''1'' else if d = 2 then CHR ''2''
      else if d = 3 then CHR ''3'' else if d = 4 then CHR ''4'' else if d = 5 then CHR ''5''
      else if d = 6 then CHR ''6'' else if d = 7 then CHR ''7'' else if d = 8 then CHR ''8''
      else CHR ''9'')"

fun show_nat :: "nat \<Rightarrow> string" where
  "show_nat n =
     (if n < 10 then [digit_char n] else show_nat (n div 10) @ [digit_char (n mod 10)])"

declare show_nat.simps [simp del]

text \<open>The verb \<open>%d\<close> (and \<open>%v\<close>) of an integer.\<close>

definition show_int :: "int \<Rightarrow> string" where
  "show_int i = (if i < 0 then CHR ''-'' # show_nat (nat (- i)) else show_nat (nat i))"

fun join :: "string \<Rightarrow> string list \<Rightarrow> string" where
  "join sep [] = []"
| "join sep [x] = x"
| "join sep (x # y # ys) = x @ sep @ join sep (y # ys)"

text \<open>\<open>%v\<close> of a string slice: the elements, bare, between brackets.\<close>

definition fmt_strs :: "string list \<Rightarrow> string" where
  "fmt_strs xs = ''['' @ join '' '' xs @ '']''"

text \<open>
  \<open>%v\<close> of an \<open>interface{}\<close> value. Strings print bare, without quotes; a map prints its
  entries as \<open>key:value\<close> in the order of the sorted keys.
\<close>

fun fmt_v :: "val \<Rightarrow> string" where
  "fmt_v VNil = ''<nil>''"
| "fmt_v (VStr s) = s"
| "fmt_v (VInt i) = show_int i"
| "fmt_v (VBool b) = (if b then ''true'' else ''false'')"
| "fmt_v (VStrs xs) = fmt_strs xs"
| "fmt_v (VMap kvs) =
     ''map['' @
     join '' '' (map (\<lambda>(k, s). k @ '':'' @ s)
                  (sort_key fst (map (\<lambda>(k, v). (k, fmt_v v)) kvs))) @
     '']''"

text \<open>A Go map kept as an association list: assignment \<open>m[k] = v\<close>; lookup is \<open>map_of\<close>.\<close>

fun map_put :: "('k \<times> 'v) list \<Rightarrow> 'k \<Rightarrow> 'v \<Rightarrow> ('k \<times> 'v) list" where
  "map_put [] k v = [(k, v)]"
| "map_put ((k', v') # kvs) k v =
     (if k' = k then (k, v) # kvs else (k', v') # map_put kvs k v)"

section \<open>Capability tokens (package capabilities)\<close>

record Limits =
  MaxDepth :: int
  MaxBudget :: int
  WorkspaceBounds :: "string list"

record PostureBounds =
  MinPosture :: int
  MaxPosture :: int

record Token =
  Issuer :: string
  Subject :: string
  Audience :: string
  Scope :: "string list"
  Limits :: Limits
  TTL :: int
  IssuedAt :: int
  ExpiresAt :: int
  PostureBounds :: PostureBounds
  NamespaceID :: string
  PrincipalID :: string
  Digest :: string
  RevokedAt :: "int option"

text \<open>\<open>time.Time.Unix\<close>: whole seconds of a nanosecond instant.\<close>

definition Unix :: "int \<Rightarrow> int" where
  "Unix t = t div 1000000000"

definition fmt_Limits :: "Limits \<Rightarrow> string" where
  "fmt_Limits l =
     ''{'' @ show_int (MaxDepth l) @ '' '' @ show_int (MaxBudget l) @ '' '' @
     fmt_strs (WorkspaceBounds l) @ ''}''"

definition computeDigest :: "(string \<Rightarrow> string) \<Rightarrow> Token \<Rightarrow> string" where
  "computeDigest H t =
     H (Issuer t @ ''|'' @ Subject t @ ''|'' @ Audience t @ ''|'' @ fmt_strs (Scope t) @ ''|'' @
        fmt_Limits (Limits t) @ ''|'' @ show_int (Unix (IssuedAt t)) @ ''|'' @
        show_int (Unix (ExpiresAt t)) @ ''|'' @ NamespaceID t @ ''|'' @ PrincipalID t)"

definition Mint ::
  "(string \<Rightarrow> string) \<Rightarrow> int \<Rightarrow> string \<Rightarrow> string \<Rightarrow> string \<Rightarrow> string list \<Rightarrow> Limits \<Rightarrow> int \<Rightarrow>
   PostureBounds \<Rightarrow> string \<Rightarrow> string \<Rightarrow> Token" where
  "Mint H now issuer subject audience scope limits ttl postureBounds namespaceID principalID =
     (let token = \<lparr>Issuer = issuer, Subject = subject, Audience = audience, Scope = scope,
                    Limits = limits, TTL = ttl, IssuedAt = now, ExpiresAt = now + ttl,
                    PostureBounds = postureBounds, NamespaceID = namespaceID,
                    PrincipalID = principalID, Digest = [], RevokedAt = None\<rparr>
      in token\<lparr>Digest := computeDigest H token\<rparr>)"

text \<open>The errors of \<open>Verify\<close>, one constructor per \<open>fmt.Errorf\<close> of the function.\<close>

datatype verify_error =
    Revoked int
  | Expired int
  | PostureBelowMinimum int int
  | PostureAboveMaximum int int

definition Verify :: "Token \<Rightarrow> int \<Rightarrow> int \<Rightarrow> bool \<times> verify_error option" where
  "Verify t currentPosture now =
     (case RevokedAt t of
        Some r \<Rightarrow> (False, Some (Revoked r))
      | None \<Rightarrow>
          if now > ExpiresAt t then (False, Some (Expired (ExpiresAt t)))
          else if currentPosture < MinPosture (PostureBounds t)
            then (False, Some (PostureBelowMinimum currentPosture (MinPosture (PostureBounds t))))
          else if currentPosture > MaxPosture (PostureBounds t)
            then (False, Some (PostureAboveMaximum currentPosture (MaxPosture (PostureBounds t))))
          else (True, None))"

definition Revoke :: "Token \<Rightarrow> int \<Rightarrow> Token" where
  "Revoke t now = t\<lparr>RevokedAt := Some now\<rparr>"

text \<open>The loop of \<open>HasScope\<close>: return true at the first element equal to the operation.\<close>

fun scope_loop :: "string list \<Rightarrow> string \<Rightarrow> bool" where
  "scope_loop [] operation = False"
| "scope_loop (s # ss) operation = (if s = operation then True else scope_loop ss operation)"

definition HasScope :: "Token \<Rightarrow> string \<Rightarrow> bool" where
  "HasScope t operation = scope_loop (Scope t) operation"

section \<open>Memory partitions (package memory)\<close>

record Entry =
  ID :: string
  Partition :: string
  Content :: string
  ContentHash :: string
  Metadata :: "string \<rightharpoonup> val"
  Timestamp :: int
  Verified :: bool

record PartitionPolicy =
  AllowWrite :: bool
  AllowRead :: bool
  RequireCapability :: bool
  AppendOnly :: bool

record Partition =
  Name :: string
  Entries :: "string \<rightharpoonup> Entry"
  Policy :: PartitionPolicy

record Manager =
  partitions :: "string \<rightharpoonup> Partition"

definition PartitionEphemeral :: string where "PartitionEphemeral = ''ephemeral''"
definition PartitionDurable :: string where "PartitionDurable = ''durable''"
definition PartitionCommitments :: string where "PartitionCommitments = ''commitments''"
definition PartitionProvenance :: string where "PartitionProvenance = ''provenance''"
definition PartitionQuarantine :: string where "PartitionQuarantine = ''quarantine''"
definition PartitionEvidence :: string where "PartitionEvidence = ''evidence''"

lemmas Partition_names =
  PartitionEphemeral_def PartitionDurable_def PartitionCommitments_def
  PartitionProvenance_def PartitionQuarantine_def PartitionEvidence_def

definition new_partition :: "string \<Rightarrow> bool \<Rightarrow> bool \<Rightarrow> bool \<Rightarrow> bool \<Rightarrow> Partition" where
  "new_partition name w r c a =
     \<lparr>Name = name, Entries = Map.empty,
      Policy = \<lparr>AllowWrite = w, AllowRead = r, RequireCapability = c, AppendOnly = a\<rparr>\<rparr>"

definition NewManager :: Manager where
  "NewManager =
     \<lparr>partitions = Map.empty
        (PartitionEphemeral \<mapsto> new_partition PartitionEphemeral True True False False,
         PartitionDurable \<mapsto> new_partition PartitionDurable True True True False,
         PartitionCommitments \<mapsto> new_partition PartitionCommitments True True True False,
         PartitionProvenance \<mapsto> new_partition PartitionProvenance True True False True,
         PartitionQuarantine \<mapsto> new_partition PartitionQuarantine True False False True,
         PartitionEvidence \<mapsto> new_partition PartitionEvidence True True True True)\<rparr>"

text \<open>The function of the source returns the constant 0, not the clock.\<close>

definition currentTimestamp :: int where
  "currentTimestamp = 0"

datatype mem_error =
    PartitionDoesNotExist string
  | ReadOnlyPartition string
  | AppendOnlyViolation string string
  | WriteOnlyPartition string
  | EntryNotFound string string
  | NotFoundInQuarantine string
  | MissingVerificationRecord

definition Write ::
  "(string \<Rightarrow> string) \<Rightarrow> Manager \<Rightarrow> string \<Rightarrow> string \<Rightarrow> string \<Rightarrow> (string \<rightharpoonup> val) option \<Rightarrow>
   mem_error option \<times> Manager" where
  "Write H m pname eid content metadata =
     (case partitions m pname of
        None \<Rightarrow> (Some (PartitionDoesNotExist pname), m)
      | Some p \<Rightarrow>
          if \<not> AllowWrite (Policy p) then (Some (ReadOnlyPartition pname), m)
          else if AppendOnly (Policy p) \<and> Entries p eid \<noteq> None
            then (Some (AppendOnlyViolation pname eid), m)
          else
            let contentHash = H content;
                metadata' = (case metadata of None \<Rightarrow> Map.empty | Some md \<Rightarrow> md);
                entry = \<lparr>ID = eid, Partition = pname, Content = content,
                         ContentHash = contentHash, Metadata = metadata',
                         Entry.Timestamp = currentTimestamp, Verified = False\<rparr>
            in (None, m\<lparr>partitions := (partitions m)
                         (pname \<mapsto> p\<lparr>Entries := (Entries p)(eid \<mapsto> entry)\<rparr>)\<rparr>))"


text \<open>
  \<open>PromoteFromQuarantine\<close> indexes the partition map without the comma-ok form and
  dereferences the result: a manager without the partition panics. The metadata of an
  entry is a value here. In the source it is a reference to one map, which \<open>Write\<close> takes
  from its caller and which the promoted copy shares with the quarantined entry; the
  properties below read an entry as the call leaves it, where the shared map and the value
  agree.
\<close>

definition PromoteFromQuarantine ::
  "Manager \<Rightarrow> string \<Rightarrow> string \<Rightarrow> panic + (mem_error option \<times> Manager)" where
  "PromoteFromQuarantine m eid verificationRecord =
     (case partitions m PartitionQuarantine of
        None \<Rightarrow> Inl NilDereference
      | Some quarantine \<Rightarrow>
          (case Entries quarantine eid of
             None \<Rightarrow> Inr (Some (NotFoundInQuarantine eid), m)
           | Some entry \<Rightarrow>
               if verificationRecord = [] then Inr (Some MissingVerificationRecord, m)
               else
                 let entry' = entry\<lparr>Verified := True,
                                Metadata := (Metadata entry)
                                  (''verification_record'' \<mapsto> VStr verificationRecord)\<rparr>;
                     m1 = m\<lparr>partitions := (partitions m)
                            (PartitionQuarantine \<mapsto>
                               quarantine\<lparr>Entries := (Entries quarantine)(eid \<mapsto> entry')\<rparr>)\<rparr>
                 in (case partitions m1 PartitionDurable of
                       None \<Rightarrow> Inl NilDereference
                     | Some durable \<Rightarrow>
                         Inr (None, m1\<lparr>partitions := (partitions m1)
                           (PartitionDurable \<mapsto>
                              durable\<lparr>Entries := (Entries durable)
                                (eid \<mapsto> \<lparr>ID = ID entry', Partition = PartitionDurable,
                                         Content = Content entry',
                                         ContentHash = ContentHash entry',
                                         Metadata = Metadata entry',
                                         Entry.Timestamp = currentTimestamp,
                                         Verified = True\<rparr>)\<rparr>)\<rparr>))))"

text \<open>
  The managers a program can hold: the fields of \<open>Manager\<close> are unexported, so every
  manager is \<open>NewManager()\<close> followed by calls of \<open>Write\<close> and \<open>PromoteFromQuarantine\<close>
  (\<open>Read\<close> and \<open>ListPartitions\<close> change nothing).
\<close>

inductive reachable :: "(string \<Rightarrow> string) \<Rightarrow> Manager \<Rightarrow> bool" for H where
  reach_new: "reachable H NewManager"
| reach_write: "reachable H m \<Longrightarrow> reachable H (snd (Write H m pname eid content metadata))"
| reach_promote:
    "reachable H m \<Longrightarrow> PromoteFromQuarantine m eid verificationRecord = Inr (e, m') \<Longrightarrow>
     reachable H m'"

definition entry_at :: "Manager \<Rightarrow> string \<Rightarrow> string \<Rightarrow> Entry option" where
  "entry_at m pname eid =
     (case partitions m pname of None \<Rightarrow> None | Some p \<Rightarrow> Entries p eid)"

definition policy_at :: "Manager \<Rightarrow> string \<Rightarrow> PartitionPolicy option" where
  "policy_at m pname = map_option Policy (partitions m pname)"

section \<open>Audit ledger (package audit)\<close>

record Receipt =
  Sequence :: int
  Timestamp :: int
  EventType :: string
  EventData :: "(string \<times> val) list"
  PrevHash :: string
  CurrentHash :: string

record Ledger =
  receipts :: "Receipt list"
  sequence :: int

definition computeHash :: "(string \<Rightarrow> string) \<Rightarrow> Receipt \<Rightarrow> string" where
  "computeHash H r =
     H (show_int (Sequence r) @ ''|'' @ show_int (Receipt.Timestamp r) @ ''|'' @ EventType r @
        ''|'' @ fmt_v (VMap (EventData r)) @ ''|'' @ PrevHash r)"

text \<open>The text that \<open>computeHash\<close> formats and hashes.\<close>

definition hashed_text :: "Receipt \<Rightarrow> string" where
  "hashed_text r =
     show_int (Sequence r) @ ''|'' @ show_int (Receipt.Timestamp r) @ ''|'' @ EventType r @
     ''|'' @ fmt_v (VMap (EventData r)) @ ''|'' @ PrevHash r"

definition NewLedger :: "(string \<Rightarrow> string) \<Rightarrow> int \<Rightarrow> Ledger" where
  "NewLedger H now =
     (let genesis = \<lparr>Sequence = 0, Receipt.Timestamp = Unix now, EventType = ''genesis'',
                      EventData = [(''message'', VStr ''audit ledger initialized'')],
                      PrevHash = ''0000000000000000'', CurrentHash = []\<rparr>;
          genesis = genesis\<lparr>CurrentHash := computeHash H genesis\<rparr>
      in \<lparr>receipts = [] @ [genesis], sequence = 0\<rparr>)"

text \<open>The unexported \<open>append\<close>, the only writer of the receipt list.\<close>

definition append_receipt ::
  "(string \<Rightarrow> string) \<Rightarrow> int \<Rightarrow> Ledger \<Rightarrow> string \<Rightarrow> (string \<times> val) list \<Rightarrow> Ledger" where
  "append_receipt H now l eventType eventData =
     (let sequence' = sequence l + 1;
          prevHash = (if length (receipts l) > 0 then CurrentHash (last (receipts l))
                      else ''0000000000000000'');
          receipt = \<lparr>Sequence = sequence', Receipt.Timestamp = Unix now, EventType = eventType,
                      EventData = eventData, PrevHash = prevHash, CurrentHash = []\<rparr>;
          receipt = receipt\<lparr>CurrentHash := computeHash H receipt\<rparr>
      in \<lparr>receipts = receipts l @ [receipt], sequence = sequence'\<rparr>)"

definition AppendCDIDecision ::
  "(string \<Rightarrow> string) \<Rightarrow> int \<Rightarrow> Ledger \<Rightarrow> string \<Rightarrow> string \<Rightarrow> string \<Rightarrow> Ledger" where
  "AppendCDIDecision H now l decision inputHash outputHash =
     append_receipt H now l ''cdi_decision''
       [(''decision'', VStr decision), (''input_hash'', VStr inputHash),
        (''output_hash'', VStr outputHash)]"

definition AppendTokenMint ::
  "(string \<Rightarrow> string) \<Rightarrow> int \<Rightarrow> Ledger \<Rightarrow> string \<Rightarrow> string list \<Rightarrow> Ledger" where
  "AppendTokenMint H now l tokenDigest scope =
     append_receipt H now l ''token_mint''
       [(''token_digest'', VStr tokenDigest), (''scope'', VStrs scope)]"

definition AppendAdapterAttempt ::
  "(string \<Rightarrow> string) \<Rightarrow> int \<Rightarrow> Ledger \<Rightarrow> string \<Rightarrow> bool \<Rightarrow> string \<Rightarrow> Ledger" where
  "AppendAdapterAttempt H now l adapterName accepted tokenDigest =
     append_receipt H now l ''adapter_attempt''
       [(''adapter'', VStr adapterName), (''accepted'', VBool accepted),
        (''token_digest'', VStr tokenDigest)]"

definition AppendMemoryWrite ::
  "(string \<Rightarrow> string) \<Rightarrow> int \<Rightarrow> Ledger \<Rightarrow> string \<Rightarrow> string \<Rightarrow> string \<Rightarrow> Ledger" where
  "AppendMemoryWrite H now l pname scope contentHash =
     append_receipt H now l ''memory_write''
       [(''partition'', VStr pname), (''scope'', VStr scope),
        (''content_hash'', VStr contentHash)]"

definition AppendIntegrityStateChange ::
  "(string \<Rightarrow> string) \<Rightarrow> int \<Rightarrow> Ledger \<Rightarrow> string \<Rightarrow> Ledger" where
  "AppendIntegrityStateChange H now l newState =
     append_receipt H now l ''integrity_state_change'' [(''new_state'', VStr newState)]"

definition AppendStopEvent :: "(string \<Rightarrow> string) \<Rightarrow> int \<Rightarrow> Ledger \<Rightarrow> int \<Rightarrow> Ledger" where
  "AppendStopEvent H now l tokensRevoked =
     append_receipt H now l ''stop_event'' [(''tokens_revoked'', VInt tokensRevoked)]"

definition AppendPostureChange ::
  "(string \<Rightarrow> string) \<Rightarrow> int \<Rightarrow> Ledger \<Rightarrow> int \<Rightarrow> int \<Rightarrow> string \<Rightarrow> Ledger" where
  "AppendPostureChange H now l fromLevel toLevel reason =
     append_receipt H now l ''posture_change''
       [(''from_level'', VInt fromLevel), (''to_level'', VInt toLevel),
        (''reason'', VStr reason)]"

datatype ledger_error =
    EmptyLedger
  | HashMismatch nat string string
  | ChainBreak nat string string

text \<open>
  The loop of \<open>Verify\<close> over the receipts from index \<open>i\<close> on; \<open>prev\<close> is
  \<open>l.receipts[i-1]\<close>, absent at the genesis receipt.
\<close>

fun verify_loop ::
  "(string \<Rightarrow> string) \<Rightarrow> nat \<Rightarrow> Receipt option \<Rightarrow> Receipt list \<Rightarrow> bool \<times> ledger_error option" where
  "verify_loop H i prev [] = (True, None)"
| "verify_loop H i prev (receipt # rest) =
     (let expectedHash = computeHash H receipt
      in if CurrentHash receipt \<noteq> expectedHash
           then (False, Some (HashMismatch i expectedHash (CurrentHash receipt)))
         else (case prev of
                 Some prevReceipt \<Rightarrow>
                   if PrevHash receipt \<noteq> CurrentHash prevReceipt
                     then (False, Some (ChainBreak i (PrevHash receipt) (CurrentHash prevReceipt)))
                   else verify_loop H (Suc i) (Some receipt) rest
               | None \<Rightarrow> verify_loop H (Suc i) (Some receipt) rest))"

definition Verify_ledger :: "(string \<Rightarrow> string) \<Rightarrow> Ledger \<Rightarrow> bool \<times> ledger_error option" where
  "Verify_ledger H l =
     (if length (receipts l) = 0 then (False, Some EmptyLedger)
      else verify_loop H 0 None (receipts l))"

definition GetReceipts :: "Ledger \<Rightarrow> Receipt list" where
  "GetReceipts l = receipts l"

text \<open>The ledgers built from \<open>NewLedger\<close> by the \<open>Append*\<close> operations, each at its own time.\<close>

inductive built :: "(string \<Rightarrow> string) \<Rightarrow> Ledger \<Rightarrow> bool" for H where
  built_new: "built H (NewLedger H now)"
| built_append: "built H l \<Longrightarrow> built H (append_receipt H now l eventType eventData)"

text \<open>The chain invariant: own hashes and backward links.\<close>

definition chained :: "(string \<Rightarrow> string) \<Rightarrow> Receipt list \<Rightarrow> bool" where
  "chained H rs =
     ((\<forall>i < length rs. CurrentHash (rs ! i) = computeHash H (rs ! i)) \<and>
      (\<forall>i < length rs. 0 < i \<longrightarrow> PrevHash (rs ! i) = CurrentHash (rs ! (i - 1))))"

text \<open>
  Tampering, as the package's test does it: one field of the receipt at an index is
  overwritten in place.
\<close>

definition tamper :: "Ledger \<Rightarrow> nat \<Rightarrow> (Receipt \<Rightarrow> Receipt) \<Rightarrow> Ledger" where
  "tamper l i f = l\<lparr>receipts := (receipts l)[i := f (receipts l ! i)]\<rparr>"

section \<open>Boundary layer (package cif)\<close>

text \<open>
  Go strings are byte strings, as \<open>string\<close> is here. Two functions of the package
  \<open>strings\<close> read the bytes as UTF-8 and work on runes, with the case tables of Unicode:
  \<open>strings.ToLower\<close> and \<open>strings.Map\<close> (a mapping of \<open>-1\<close> drops the rune). They are
  parameters, gathered in a record; a rune is an \<open>int\<close>. \<open>strings.Contains\<close> compares
  bytes and is defined here.
\<close>

record go_strings =
  ToLower :: "string \<Rightarrow> string"
  Map_runes :: "(int \<Rightarrow> int) \<Rightarrow> string \<Rightarrow> string"

fun HasPrefix :: "string \<Rightarrow> string \<Rightarrow> bool" where
  "HasPrefix s [] = True"
| "HasPrefix [] (p # ps) = False"
| "HasPrefix (c # cs) (p # ps) = (c = p \<and> HasPrefix cs ps)"

fun Contains :: "string \<Rightarrow> string \<Rightarrow> bool" where
  "Contains [] substr = (substr = [])"
| "Contains (c # cs) substr = (HasPrefix (c # cs) substr \<or> Contains cs substr)"

record LabeledRequest =
  OriginalInput :: string
  SanitizedInput :: string
  TaintLabels :: "string list"
  SensitivityLevel :: string
  InputHash :: string
  Metadata :: "(string \<rightharpoonup> val) option"

datatype cif_error = EmptyInputRejected | InputExceedsSizeLimit

definition sanitizeInput :: "go_strings \<Rightarrow> string \<Rightarrow> string" where
  "sanitizeInput G input =
     Map_runes G (\<lambda>r. if r < 32 \<and> r \<noteq> 10 \<and> r \<noteq> 9 then - 1 else r) input"

definition detectTaint :: "go_strings \<Rightarrow> string \<Rightarrow> string list" where
  "detectTaint G input =
     (let labels = [];
          patterns = [''system:'', ''assistant:'', ''<|im_start|>'', ''<|im_end|>'', ''[INST]'',
                      ''[/INST]'', ''### Instruction:'', ''### System:''];
          lowerInput = ToLower G input;
          labels = (if list_ex (\<lambda>pattern. Contains lowerInput (ToLower G pattern)) patterns
                    then labels @ [''instruction_smuggling_attempt''] else labels);
          pressurePatterns = [''urgent'', ''emergency'', ''immediately'', ''override'',
                              ''ignore previous'', ''disregard''];
          labels = (if list_ex (\<lambda>pattern. Contains lowerInput pattern) pressurePatterns
                    then labels @ [''pressure_tactic''] else labels)
      in if length labels = 0 then labels @ [''clean''] else labels)"

text \<open>The type assertion \<open>level.(string)\<close> has no comma-ok form: any other value panics.\<close>

definition assessSensitivity :: "string \<Rightarrow> (string \<rightharpoonup> val) option \<Rightarrow> panic + string" where
  "assessSensitivity input metadata =
     (case metadata of
        None \<Rightarrow> Inr ''low''
      | Some md \<Rightarrow>
          (case md ''sensitivity'' of
             None \<Rightarrow> Inr ''low''
           | Some level \<Rightarrow> (case level of VStr s \<Rightarrow> Inr s | _ \<Rightarrow> Inl TypeAssertion)))"

definition Ingress ::
  "(string \<Rightarrow> string) \<Rightarrow> go_strings \<Rightarrow> string \<Rightarrow> (string \<rightharpoonup> val) option \<Rightarrow>
   panic + (cif_error + LabeledRequest)" where
  "Ingress H G rawInput metadata =
     (if length rawInput = 0 then Inr (Inl EmptyInputRejected)
      else if length rawInput > 100 * 1024 then Inr (Inl InputExceedsSizeLimit)
      else
        let sanitized = sanitizeInput G rawInput;
            taintLabels = detectTaint G rawInput
        in (case assessSensitivity rawInput metadata of
              Inl p \<Rightarrow> Inl p
            | Inr sensitivity \<Rightarrow>
                Inr (Inr \<lparr>OriginalInput = rawInput, SanitizedInput = sanitized,
                          TaintLabels = taintLabels, SensitivityLevel = sensitivity,
                          InputHash = H sanitized, LabeledRequest.Metadata = metadata\<rparr>)))"

definition IsTainted :: "LabeledRequest \<Rightarrow> bool" where
  "IsTainted lr = list_ex (\<lambda>label. label \<noteq> ''clean'') (TaintLabels lr)"

record OutputArtifact =
  Content :: string
  ContentHash :: string
  SensitivityLevel :: string
  LeakBudgetUsed :: int
  Redacted :: bool
  Metadata :: "(string \<rightharpoonup> val) option"

record UserResponse =
  Content :: string
  Redacted :: bool
  RedactionReason :: string
  OutputHash :: string

text \<open>The slice \<open>content[:budget]\<close> panics on a negative bound.\<close>

definition redactOverBudget :: "string \<Rightarrow> int \<Rightarrow> panic + string" where
  "redactOverBudget content budget =
     (if int (length content) \<le> budget then Inr content
      else if budget < 0 then Inl SliceBounds
      else Inr (take (nat budget) content @
                [CHR 0x0A] @ ''[REDACTED: leak budget exceeded]''))"

definition shouldRedactByPosture :: "string \<Rightarrow> int \<Rightarrow> bool" where
  "shouldRedactByPosture sensitivity posture =
     (if sensitivity = ''high'' then posture \<ge> 2
      else if sensitivity = ''medium'' then posture \<ge> 3
      else if sensitivity = ''low'' then False
      else True)"

definition redactSensitive :: "string \<Rightarrow> string" where
  "redactSensitive content = ''[REDACTED: sensitive content filtered by posture constraint]''"

definition containsBypassInstructions :: "go_strings \<Rightarrow> string \<Rightarrow> bool" where
  "containsBypassInstructions G content =
     (let lowerContent = ToLower G content;
          bypassPatterns = [''ignore previous instructions'', ''disregard the above'',
                            ''new instructions:'', ''system prompt:'', ''<|im_start|>'',
                            ''override security'']
      in list_ex (\<lambda>pattern. Contains lowerContent pattern) bypassPatterns)"

definition stripBypassInstructions :: "string \<Rightarrow> string" where
  "stripBypassInstructions content = ''[OUTPUT BLOCKED: bypass instruction pattern detected]''"

definition Egress ::
  "(string \<Rightarrow> string) \<Rightarrow> go_strings \<Rightarrow> OutputArtifact \<Rightarrow> int \<Rightarrow> int \<Rightarrow>
   panic + UserResponse" where
  "Egress H G artifact postureLevel leakBudget =
     (let content = OutputArtifact.Content artifact;
          outputHash = H content
      in (case (if LeakBudgetUsed artifact > leakBudget
                then map_sum (\<lambda>p. p) (\<lambda>c. (c, True, ''leak_budget_exceeded''))
                       (redactOverBudget content leakBudget)
                else Inr (content, False, [])) of
            Inl p \<Rightarrow> Inl p
          | Inr (content, redacted, redactionReason) \<Rightarrow>
              let (content, redacted, redactionReason) =
                    (if shouldRedactByPosture (OutputArtifact.SensitivityLevel artifact) postureLevel
                     then (redactSensitive content, True, ''posture_constraint'')
                     else (content, redacted, redactionReason));
                  (content, redacted, redactionReason) =
                    (if containsBypassInstructions G content
                     then (stripBypassInstructions content, True, ''bypass_instruction_detected'')
                     else (content, redacted, redactionReason))
              in Inr \<lparr>UserResponse.Content = content, UserResponse.Redacted = redacted,
                      RedactionReason = redactionReason, OutputHash = outputHash\<rparr>))"

section \<open>Decision engine (package cdi)\<close>

datatype Decision = ALLOW | DENY | DEGRADE

text \<open>\<open>Decision\<close> is a string type; its three constants print as their names.\<close>

definition Decision_string :: "Decision \<Rightarrow> string" where
  "Decision_string d = (case d of ALLOW \<Rightarrow> ''ALLOW'' | DENY \<Rightarrow> ''DENY'' | DEGRADE \<Rightarrow> ''DEGRADE'')"

record DecisionResult =
  Decision :: Decision
  Reason :: string
  DegradedScope :: "string list"
  RequiredPosture :: int
  Metadata :: "(string \<rightharpoonup> val) option"

text \<open>
  \<open>Request\<close> is a pointer that \<open>Decide\<close> never compares with \<open>nil\<close>; a context built
  without it carries \<open>None\<close>.
\<close>

record DecisionContext =
  Request :: "LabeledRequest option"
  PostureLevel :: int
  GovernanceRules :: "(string \<rightharpoonup> val) option"
  IntegrityState :: string
  ActiveConsents :: "(string \<rightharpoonup> bool) option"

datatype cdi_error = NilDecisionContext

text \<open>A result literal that sets the decision and the reason only; the rest is zero.\<close>

definition bare_result :: "Decision \<Rightarrow> string \<Rightarrow> DecisionResult" where
  "bare_result d reason =
     \<lparr>Decision = d, Reason = reason, DegradedScope = [], RequiredPosture = 0,
      DecisionResult.Metadata = None\<rparr>"

definition hasConsent :: "(string \<rightharpoonup> bool) option \<Rightarrow> string \<Rightarrow> bool" where
  "hasConsent consents required =
     (case consents of
        None \<Rightarrow> False
      | Some m \<Rightarrow> (case m required of None \<Rightarrow> False | Some b \<Rightarrow> b))"

definition evaluateRequest :: "DecisionContext \<Rightarrow> panic + DecisionResult" where
  "evaluateRequest ctx =
     (case Request ctx of
        None \<Rightarrow> Inl NilDereference
      | Some request \<Rightarrow>
          let sensitivity = LabeledRequest.SensitivityLevel request
          in if sensitivity = ''high'' \<and> \<not> hasConsent (ActiveConsents ctx) ''high_risk_operations''
               then Inr (bare_result DENY ''high_risk_requires_consent'')
             else if IntegrityState ctx = ''INTEGRITY_DEGRADED''
               then Inr \<lparr>Decision = DEGRADE, Reason = ''integrity_degraded'',
                         DegradedScope = [''read_only'', ''query''],
                         RequiredPosture = PostureLevel ctx, DecisionResult.Metadata = None\<rparr>
             else if sensitivity = ''low'' \<and> \<not> IsTainted request
               then Inr \<lparr>Decision = ALLOW, Reason = ''clean_low_sensitivity'',
                         DegradedScope = [''*''],
                         RequiredPosture = PostureLevel ctx, DecisionResult.Metadata = None\<rparr>
             else if sensitivity = ''medium''
               then Inr \<lparr>Decision = DEGRADE, Reason = ''medium_sensitivity'',
                         DegradedScope = [''query'', ''search'', ''read''],
                         RequiredPosture = PostureLevel ctx, DecisionResult.Metadata = None\<rparr>
             else Inr (bare_result DENY ''unknown_case''))"

definition Decide ::
  "DecisionContext option \<Rightarrow> panic + (DecisionResult \<times> cdi_error option)" where
  "Decide ctx' =
     (case ctx' of
        None \<Rightarrow> Inr (bare_result DENY ''nil context'', Some NilDecisionContext)
      | Some ctx \<Rightarrow>
          if IntegrityState ctx = ''INTEGRITY_VOID'' then Inr (bare_result DENY ''integrity_void'', None)
          else (case Request ctx of
                  None \<Rightarrow> Inl NilDereference
                | Some request \<Rightarrow>
                    if IsTainted request then Inr (bare_result DENY ''tainted_input'', None)
                    else if PostureLevel ctx = 0 then Inr (bare_result DENY ''undefined_posture'', None)
                    else if GovernanceRules ctx = None
                      then Inr (bare_result DENY ''missing_governance'', None)
                    else (case evaluateRequest ctx of
                            Inl p \<Rightarrow> Inl p
                          | Inr decision \<Rightarrow> Inr (decision, None))))"

text \<open>The scan of \<open>DecideOutput\<close>: the function of the source returns false for every content.\<close>

definition containsBypassPatterns :: "string \<Rightarrow> bool" where
  "containsBypassPatterns content = False"

definition DecideOutput :: "string \<Rightarrow> string \<Rightarrow> int \<Rightarrow> DecisionResult \<times> cdi_error option" where
  "DecideOutput content sensitivity postureLevel =
     (if sensitivity = ''high'' \<and> postureLevel \<ge> 2
        then (bare_result DENY ''high_sensitivity_blocked_by_posture'', None)
      else if containsBypassPatterns content
        then (bare_result DENY ''bypass_instruction_in_output'', None)
      else (bare_result ALLOW ''output_approved'', None))"

section \<open>The decision order in the words of the specification\<close>

text \<open>
  The ten rules of the specification, as a list of condition and outcome in the order of
  the specification, the first rule whose condition holds giving the outcome. Rule 1 (the
  missing context) is the case of no context at all; the list holds rules 2 to 10 for a
  context and its request. An outcome is a decision, a reason and a scope.
\<close>

definition consent_active :: "DecisionContext \<Rightarrow> string \<Rightarrow> bool" where
  "consent_active ctx k = (\<exists>m. ActiveConsents ctx = Some m \<and> m k = Some True)"

definition tainted :: "LabeledRequest \<Rightarrow> bool" where
  "tainted request = (\<exists>label \<in> set (TaintLabels request). label \<noteq> ''clean'')"

definition spec_rules ::
  "DecisionContext \<Rightarrow> LabeledRequest \<Rightarrow> (bool \<times> Decision \<times> string \<times> string set) list" where
  "spec_rules ctx request =
     [(IntegrityState ctx = ''INTEGRITY_VOID'', DENY, ''integrity_void'', {}),
      (tainted request, DENY, ''tainted_input'', {}),
      (PostureLevel ctx = 0, DENY, ''undefined_posture'', {}),
      (GovernanceRules ctx = None, DENY, ''missing_governance'', {}),
      (LabeledRequest.SensitivityLevel request = ''high'' \<and>
         \<not> consent_active ctx ''high_risk_operations'',
       DENY, ''high_risk_requires_consent'', {}),
      (IntegrityState ctx = ''INTEGRITY_DEGRADED'',
       DEGRADE, ''integrity_degraded'', {''read_only'', ''query''}),
      (LabeledRequest.SensitivityLevel request = ''low'' \<and> \<not> tainted request,
       ALLOW, ''clean_low_sensitivity'', {''*''}),
      (LabeledRequest.SensitivityLevel request = ''medium'',
       DEGRADE, ''medium_sensitivity'', {''query'', ''search'', ''read''}),
      (True, DENY, ''unknown_case'', {})]"

fun first_match :: "(bool \<times> 'a) list \<Rightarrow> 'a option" where
  "first_match [] = None"
| "first_match ((c, x) # rest) = (if c then Some x else first_match rest)"

definition outcome :: "DecisionResult \<Rightarrow> Decision \<times> string \<times> string set" where
  "outcome res = (Decision res, Reason res, set (DegradedScope res))"

section \<open>Adapters and their registry (package adapters)\<close>

text \<open>
  The repository has one implementation of the interface \<open>Adapter\<close>, the mock adapter; the
  registry holds mock adapters. A token argument is a pointer that the adapter compares
  with \<open>nil\<close>: a \<open>Token option\<close>.
\<close>

record Invocation =
  TokenDigest :: string
  Params :: "(string \<times> val) list"
  Result :: val

record MockAdapter =
  name :: string
  invocations :: "Invocation list"

datatype adapter_error =
    NilTokenInvokeRejected
  | TokenlessInvocationRejected
  | TokenVerificationFailed "verify_error option"
  | NoScopeForAdapter string
  | AdapterNotFound string
  | AdapterAlreadyRegistered string
  | RegistryVerificationFailed adapter_error

definition NewMockAdapter :: "string \<Rightarrow> MockAdapter" where
  "NewMockAdapter adapterName = \<lparr>name = adapterName, invocations = []\<rparr>"

definition MockAdapter_Name :: "MockAdapter \<Rightarrow> string" where
  "MockAdapter_Name m = name m"

definition MockAdapter_Invoke ::
  "MockAdapter \<Rightarrow> Token option \<Rightarrow> (string \<times> val) list \<Rightarrow>
   (val \<times> adapter_error option) \<times> MockAdapter" where
  "MockAdapter_Invoke m token params =
     (case token of
        None \<Rightarrow> ((VNil, Some NilTokenInvokeRejected), m)
      | Some t \<Rightarrow>
          let res = VMap [(''status'', VStr ''success''),
                          (''message'', VStr (''mock adapter '' @ name m @ '' invoked''))]
          in ((res, None),
              m\<lparr>invocations := invocations m @
                   [\<lparr>TokenDigest = Digest t, Params = params, Result = res\<rparr>]\<rparr>))"

definition VerifyToken :: "MockAdapter \<Rightarrow> Token option \<Rightarrow> int \<Rightarrow> int \<Rightarrow> adapter_error option" where
  "VerifyToken m token currentPosture now =
     (case token of
        None \<Rightarrow> Some TokenlessInvocationRejected
      | Some t \<Rightarrow>
          (case Verify t currentPosture now of
             (valid, err) \<Rightarrow>
               if \<not> valid then Some (TokenVerificationFailed err)
               else if \<not> HasScope t (name m) \<and> \<not> HasScope t ''*''
                 then Some (NoScopeForAdapter (name m))
               else None))"

definition GetInvocations :: "MockAdapter \<Rightarrow> Invocation list" where
  "GetInvocations m = invocations m"

definition ResetInvocations :: "MockAdapter \<Rightarrow> MockAdapter" where
  "ResetInvocations m = m\<lparr>invocations := []\<rparr>"

record Registry =
  adapters :: "string \<rightharpoonup> MockAdapter"

definition NewRegistry :: Registry where
  "NewRegistry = \<lparr>adapters = Map.empty\<rparr>"

definition Register :: "Registry \<Rightarrow> MockAdapter \<Rightarrow> adapter_error option \<times> Registry" where
  "Register r adapter =
     (let adapterName = MockAdapter_Name adapter
      in if adapters r adapterName \<noteq> None then (Some (AdapterAlreadyRegistered adapterName), r)
         else (None, r\<lparr>adapters := (adapters r)(adapterName \<mapsto> adapter)\<rparr>))"

definition Get :: "Registry \<Rightarrow> string \<Rightarrow> adapter_error + MockAdapter" where
  "Get r adapterName =
     (case adapters r adapterName of
        None \<Rightarrow> Inl (AdapterNotFound adapterName)
      | Some adapter \<Rightarrow> Inr adapter)"

text \<open>
  \<open>Registry.Invoke\<close>. The adapter is reached through the pointer stored in the registry,
  so the invocation it records shows under the same key afterwards.
\<close>

definition Registry_Invoke ::
  "Registry \<Rightarrow> string \<Rightarrow> Token option \<Rightarrow> int \<Rightarrow> (string \<times> val) list \<Rightarrow> int \<Rightarrow>
   (val \<times> adapter_error option) \<times> Registry" where
  "Registry_Invoke r adapterName token currentPosture params now =
     (case Get r adapterName of
        Inl err \<Rightarrow> ((VNil, Some err), r)
      | Inr adapter \<Rightarrow>
          (case VerifyToken adapter token currentPosture now of
             Some err \<Rightarrow> ((VNil, Some (RegistryVerificationFailed err)), r)
           | None \<Rightarrow>
               (case MockAdapter_Invoke adapter token params of
                  (res, adapter') \<Rightarrow> (res, r\<lparr>adapters := (adapters r)(adapterName \<mapsto> adapter')\<rparr>))))"

section \<open>System state and the pipeline (package kernel)\<close>

text \<open>
  The capsules and the state carry the fields that the functions below read or write; the
  world pack, the indexes, the profile store, the revocation history and the
  declassification ledger are written by \<open>NewSystemState\<close> only and are left out, as is
  the lock.

  The active-token map holds pointers. The token objects live in \<open>TokenHeap\<close>; a pointer is
  an index into it, and an index outside it is the nil pointer. So a token revoked through
  the map is revoked for every holder of the pointer.
\<close>

record IdentityCapsule =
  PrincipalID :: string
  NamespaceID :: string
  Attributes :: "string \<rightharpoonup> string"

record AuthorityCapsule =
  ActiveConsents :: "(string \<rightharpoonup> bool) option"

record GovernanceCapsule =
  PolicyVersion :: string
  Rules :: "(string \<rightharpoonup> val) option"
  Commitments :: "string \<rightharpoonup> string"

record SystemState =
  IdentityCapsule :: IdentityCapsule
  AuthorityCapsule :: AuthorityCapsule
  GovernanceCapsule :: GovernanceCapsule
  AuditLedger :: Ledger
  IntegrityState :: string
  PostureLevel :: int
  ActiveCapabilityTokens :: "(string \<times> nat) list"
  AdapterRegistry :: Registry
  MemoryManager :: Manager
  TokenHeap :: "Token list"

definition IntegrityOK :: string where "IntegrityOK = ''INTEGRITY_OK''"
definition IntegrityDegraded :: string where "IntegrityDegraded = ''INTEGRITY_DEGRADED''"
definition IntegrityVoid :: string where "IntegrityVoid = ''INTEGRITY_VOID''"

text \<open>The default posture, a constant of the package posture.\<close>

definition P1 :: int where "P1 = 1"

definition NewSystemState :: "(string \<Rightarrow> string) \<Rightarrow> int \<Rightarrow> string \<Rightarrow> string \<Rightarrow> SystemState" where
  "NewSystemState H now principalID namespaceID =
     \<lparr>IdentityCapsule = \<lparr>PrincipalID = principalID, NamespaceID = namespaceID,
                          Attributes = Map.empty\<rparr>,
      AuthorityCapsule = \<lparr>ActiveConsents = Some Map.empty\<rparr>,
      GovernanceCapsule = \<lparr>PolicyVersion = ''v1'', Rules = Some Map.empty,
                            Commitments = Map.empty\<rparr>,
      AuditLedger = NewLedger H now,
      SystemState.IntegrityState = IntegrityOK,
      SystemState.PostureLevel = P1,
      ActiveCapabilityTokens = [],
      AdapterRegistry = NewRegistry,
      MemoryManager = NewManager,
      TokenHeap = []\<rparr>"

definition token_at :: "SystemState \<Rightarrow> nat \<Rightarrow> Token option" where
  "token_at s a = (if a < length (TokenHeap s) then Some (TokenHeap s ! a) else None)"

text \<open>Allocation of a token object, as \<open>Mint\<close> does with \<open>&Token{...}\<close>.\<close>

definition new_token :: "SystemState \<Rightarrow> Token \<Rightarrow> nat \<times> SystemState" where
  "new_token s t = (length (TokenHeap s), s\<lparr>TokenHeap := TokenHeap s @ [t]\<rparr>)"

text \<open>\<open>token.Revoke()\<close> through a pointer.\<close>

definition Revoke_at :: "int \<Rightarrow> SystemState \<Rightarrow> nat \<Rightarrow> panic + SystemState" where
  "Revoke_at now s a =
     (case token_at s a of
        None \<Rightarrow> Inl NilDereference
      | Some t \<Rightarrow> Inr (s\<lparr>TokenHeap := (TokenHeap s)[a := Revoke t now]\<rparr>))"

definition SetIntegrityState ::
  "(string \<Rightarrow> string) \<Rightarrow> int \<Rightarrow> SystemState \<Rightarrow> string \<Rightarrow> SystemState" where
  "SetIntegrityState H now s st =
     s\<lparr>SystemState.IntegrityState := st,
       AuditLedger := AppendIntegrityStateChange H now (AuditLedger s) st\<rparr>"

definition GetIntegrityState :: "SystemState \<Rightarrow> string" where
  "GetIntegrityState s = SystemState.IntegrityState s"

text \<open>The loop of \<open>RevokeAllTokens\<close> over the entries of the active-token map.\<close>

fun revoke_loop :: "int \<Rightarrow> (string \<times> nat) list \<Rightarrow> Token list \<Rightarrow> panic + Token list" where
  "revoke_loop now [] h = Inr h"
| "revoke_loop now ((d, a) # rest) h =
     (if a < length h then revoke_loop now rest (h[a := Revoke (h ! a) now])
      else Inl NilDereference)"

definition RevokeAllTokens :: "(string \<Rightarrow> string) \<Rightarrow> int \<Rightarrow> SystemState \<Rightarrow> panic + SystemState" where
  "RevokeAllTokens H now s =
     (case revoke_loop now (ActiveCapabilityTokens s) (TokenHeap s) of
        Inl p \<Rightarrow> Inl p
      | Inr h \<Rightarrow>
          Inr (s\<lparr>TokenHeap := h,
                 AuditLedger := AppendStopEvent H now (AuditLedger s)
                                  (int (length (ActiveCapabilityTokens s)))\<rparr>))"

definition AddToken :: "(string \<Rightarrow> string) \<Rightarrow> int \<Rightarrow> SystemState \<Rightarrow> nat \<Rightarrow> panic + SystemState" where
  "AddToken H now s a =
     (case token_at s a of
        None \<Rightarrow> Inl NilDereference
      | Some token \<Rightarrow>
          Inr (s\<lparr>ActiveCapabilityTokens := map_put (ActiveCapabilityTokens s) (Digest token) a,
                 AuditLedger := AppendTokenMint H now (AuditLedger s) (Digest token)
                                  (Scope token)\<rparr>))"

record Request =
  RawInput :: string
  Metadata :: "(string \<rightharpoonup> val) option"

datatype exec_error =
    CifFailure cif_error
  | CdiFailure cdi_error
  | TokenRevokedStopDominance
  | AdapterFailure adapter_error

text \<open>
  The field \<open>Error\<close> of a response is a text made of a fixed prefix and, for a failed
  stage, the message of the error; it is kept as the prefix and the error value.
\<close>

datatype response_error =
    NoError
  | StageFailed string exec_error
  | RequestDenied string
  | OutputBlockedByCDI

record Response =
  Content :: string
  Success :: bool
  Error :: response_error
  AuditTrail :: "string list"

definition failed :: "response_error \<Rightarrow> string list \<Rightarrow> Response" where
  "failed e auditTrail =
     \<lparr>Response.Content = [], Success = False, Error = e, AuditTrail = auditTrail\<rparr>"

definition mintToken ::
  "(string \<Rightarrow> string) \<Rightarrow> int \<Rightarrow> DecisionResult \<Rightarrow> LabeledRequest \<Rightarrow> SystemState \<Rightarrow>
   Token \<times> exec_error option" where
  "mintToken H now decision request state =
     (let scope = DegradedScope decision;
          scope = (if length scope = 0 then [''*''] else scope);
          limits = \<lparr>MaxDepth = 10, MaxBudget = 1000, WorkspaceBounds = []\<rparr>;
          postureBounds = \<lparr>MinPosture = RequiredPosture decision, MaxPosture = 4\<rparr>
      in (Mint H now ''kernel'' (IdentityCapsule.PrincipalID (IdentityCapsule state)) ''adapters''
            scope limits (5 * 60 * 1000000000) postureBounds
            (IdentityCapsule.NamespaceID (IdentityCapsule state))
            (IdentityCapsule.PrincipalID (IdentityCapsule state)),
          None))"

definition kernelExecute ::
  "(string \<Rightarrow> string) \<Rightarrow> int \<Rightarrow> nat \<Rightarrow> LabeledRequest \<Rightarrow> SystemState \<Rightarrow>
   panic + ((string \<times> exec_error option) \<times> SystemState)" where
  "kernelExecute H now a request state =
     (case token_at state a of
        None \<Rightarrow> Inl NilDereference
      | Some token \<Rightarrow>
          if RevokedAt token \<noteq> None then Inr (([], Some TokenRevokedStopDominance), state)
          else
            let adapterName = ''mock_adapter'';
                params = [(''input'', VStr (SanitizedInput request))]
            in (case Registry_Invoke (AdapterRegistry state) adapterName (Some token)
                       (SystemState.PostureLevel state) params now of
                  ((res, Some err), registry) \<Rightarrow>
                    Inr (([], Some (AdapterFailure err)),
                         state\<lparr>AdapterRegistry := registry,
                               AuditLedger := AppendAdapterAttempt H now (AuditLedger state)
                                                adapterName False (Digest token)\<rparr>)
                | ((res, None), registry) \<Rightarrow>
                    let state = state\<lparr>AdapterRegistry := registry,
                                      AuditLedger := AppendAdapterAttempt H now (AuditLedger state)
                                                       adapterName True (Digest token)\<rparr>
                    in (case res of
                          VMap resultMap \<Rightarrow>
                            (case map_of resultMap ''message'' of
                               Some (VStr message) \<Rightarrow> Inr ((message, None), state)
                             | _ \<Rightarrow> Inr ((''result: '' @ fmt_v res, None), state))
                        | _ \<Rightarrow> Inr ((''result: '' @ fmt_v res, None), state))))"

definition Execute ::
  "(string \<Rightarrow> string) \<Rightarrow> go_strings \<Rightarrow> int \<Rightarrow> Request \<Rightarrow> SystemState \<Rightarrow>
   panic + ((Response \<times> exec_error option) \<times> SystemState)" where
  "Execute H G now req state =
     (let auditTrail = [];
          auditTrail = auditTrail @ [''cif_ingress_start'']
      in (case Ingress H G (RawInput req) (Request.Metadata req) of
            Inl p \<Rightarrow> Inl p
          | Inr (Inl err) \<Rightarrow>
              Inr ((failed (StageFailed ''cif_ingress_failed'' (CifFailure err)) auditTrail,
                    Some (CifFailure err)), state)
          | Inr (Inr labeledRequest) \<Rightarrow>
         (let auditTrail = auditTrail @ [''cif_ingress_complete''];
              auditTrail = auditTrail @ [''cdi_decision_start''];
              decisionCtx =
                \<lparr>Request = Some labeledRequest,
                 DecisionContext.PostureLevel = SystemState.PostureLevel state,
                 GovernanceRules = Rules (GovernanceCapsule state),
                 DecisionContext.IntegrityState = SystemState.IntegrityState state,
                 DecisionContext.ActiveConsents =
                   AuthorityCapsule.ActiveConsents (AuthorityCapsule state)\<rparr>
          in (case Decide (Some decisionCtx) of
                Inl p \<Rightarrow> Inl p
              | Inr (decision, Some err) \<Rightarrow>
                  Inr ((failed (StageFailed ''cdi_decision_failed'' (CdiFailure err)) auditTrail,
                        Some (CdiFailure err)), state)
              | Inr (decision, None) \<Rightarrow>
         (let state = state\<lparr>AuditLedger := AppendCDIDecision H now (AuditLedger state)
                               (Decision_string (Decision decision))
                               (InputHash labeledRequest) []\<rparr>;
              auditTrail = auditTrail @ [''cdi_decision: '' @ Decision_string (Decision decision)]
          in if Decision decision = DENY
               then Inr ((failed (RequestDenied (Reason decision))
                            (auditTrail @ [''deny_terminal'']), None), state)
             else
         (let auditTrail = auditTrail @ [''token_mint_start'']
          in (case mintToken H now decision labeledRequest state of
                (token, Some err) \<Rightarrow>
                  Inr ((failed (StageFailed ''token_mint_failed'' err) auditTrail, Some err), state)
              | (token, None) \<Rightarrow>
         (case new_token state token of (a, state) \<Rightarrow>
         (case AddToken H now state a of
            Inl p \<Rightarrow> Inl p
          | Inr state \<Rightarrow>
         (let auditTrail = auditTrail @ [''token_mint_complete''];
              auditTrail = auditTrail @ [''kernel_execute_start'']
          in (case kernelExecute H now a labeledRequest state of
                Inl p \<Rightarrow> Inl p
              | Inr ((outputContent, Some err), state) \<Rightarrow>
                  Inr ((failed (StageFailed ''kernel_execute_failed'' err) auditTrail, Some err),
                       state)
              | Inr ((outputContent, None), state) \<Rightarrow>
         (let auditTrail = auditTrail @ [''kernel_execute_complete''];
              auditTrail = auditTrail @ [''cdi_output_decision_start'']
          in (case DecideOutput outputContent (LabeledRequest.SensitivityLevel labeledRequest)
                     (SystemState.PostureLevel state) of
                (outputDecision, err) \<Rightarrow>
         (if err \<noteq> None \<or> Decision outputDecision = DENY
            then Inr ((failed OutputBlockedByCDI auditTrail, None), state)
          else
         (let auditTrail = auditTrail @ [''cdi_output_decision_complete''];
              auditTrail = auditTrail @ [''cif_egress_start''];
              outputArtifact =
                \<lparr>OutputArtifact.Content = outputContent,
                 OutputArtifact.ContentHash = [],
                 OutputArtifact.SensitivityLevel = LabeledRequest.SensitivityLevel labeledRequest,
                 LeakBudgetUsed = int (length outputContent),
                 OutputArtifact.Redacted = False,
                 OutputArtifact.Metadata = Some Map.empty\<rparr>
          in (case Egress H G outputArtifact (SystemState.PostureLevel state) 10000 of
                Inl p \<Rightarrow> Inl p
              | Inr finalResponse \<Rightarrow>
         (let auditTrail = auditTrail @ [''cif_egress_complete'']
          in Inr ((\<lparr>Response.Content = UserResponse.Content finalResponse, Success = True,
                    Error = NoError, AuditTrail = auditTrail\<rparr>, None),
                  state))))))))))))))))))"

section \<open>Notions used to state the properties of the pipeline\<close>

text \<open>The metadata under which the type assertion of \<open>assessSensitivity\<close> fails.\<close>

definition non_string_sensitivity :: "(string \<rightharpoonup> val) option \<Rightarrow> bool" where
  "non_string_sensitivity metadata =
     (\<exists>md level. metadata = Some md \<and> md ''sensitivity'' = Some level \<and> (\<forall>s. level \<noteq> VStr s))"



text \<open>Every pointer of the active-token map points to a token object.\<close>

definition pointers_valid :: "SystemState \<Rightarrow> bool" where
  "pointers_valid s = (\<forall>(d, a) \<in> set (ActiveCapabilityTokens s). a < length (TokenHeap s))"

text \<open>The active-token map is a map (distinct keys) without nil pointers.\<close>

definition well_formed :: "SystemState \<Rightarrow> bool" where
  "well_formed s = (pointers_valid s \<and> distinct (map fst (ActiveCapabilityTokens s)))"

text \<open>
  The operations of the repository on a system state and on the tokens it points to: the
  methods of \<open>SystemState\<close>, the pipeline, and \<open>Mint\<close> and \<open>Revoke\<close> of the package
  capabilities (\<open>Verify\<close>, \<open>HasScope\<close> and \<open>GetIntegrityState\<close> only read). A panic ends
  the run.
\<close>

datatype kernel_op =
    OpSetIntegrityState string
  | OpRevokeAllTokens
  | OpAddToken nat
  | OpExecute Request
  | OpMint string string string "string list" Limits int PostureBounds string string
  | OpRevoke nat

fun apply_op ::
  "(string \<Rightarrow> string) \<Rightarrow> go_strings \<Rightarrow> int \<Rightarrow> kernel_op \<Rightarrow> SystemState \<Rightarrow> panic + SystemState" where
  "apply_op H G now (OpSetIntegrityState st) s = Inr (SetIntegrityState H now s st)"
| "apply_op H G now OpRevokeAllTokens s = RevokeAllTokens H now s"
| "apply_op H G now (OpAddToken a) s = AddToken H now s a"
| "apply_op H G now (OpExecute req) s = map_sum (\<lambda>p. p) snd (Execute H G now req s)"
| "apply_op H G now (OpMint issuer subject audience scope limits ttl bounds ns pr) s =
     Inr (snd (new_token s (Mint H now issuer subject audience scope limits ttl bounds ns pr)))"
| "apply_op H G now (OpRevoke a) s = Revoke_at now s a"

text \<open>A run of operations, each at its own time.\<close>

fun run_ops ::
  "(string \<Rightarrow> string) \<Rightarrow> go_strings \<Rightarrow> (int \<times> kernel_op) list \<Rightarrow> SystemState \<Rightarrow> panic + SystemState" where
  "run_ops H G [] s = Inr s"
| "run_ops H G ((now, op) # ops) s =
     (case apply_op H G now op s of Inl p \<Rightarrow> Inl p | Inr s' \<Rightarrow> run_ops H G ops s')"

section \<open>The standalone gateway (flourish.java): consent tokens\<close>

text \<open>
  The gateway is written in Java. What it takes from the platform, and its own JSON reader,
  are parameters, gathered in a record: \<open>String.split\<close> on the dot, the Base64-URL
  decoder, the Ed25519 verification under a public key, \<open>MiniJson.parse\<close>, and the two
  conversions of \<open>java.lang.Number\<close>. A function of the record that can throw returns an
  \<open>option\<close>, \<open>None\<close> standing for the exception; every exception makes the verification
  fail. The properties below hold for every such record. \<open>Instant.now().getEpochSecond()\<close> is
  a parameter, in seconds, one for each place that reads the clock.

  A parsed JSON object is its list of members, read with \<open>map_of\<close>; \<open>'n\<close> is the type
  of the numbers.
\<close>

datatype 'n json =
    JNull
  | JBool bool
  | JNum 'n
  | JStr string
  | JArr "'n json list"
  | JObj "(string \<times> 'n json) list"

record 'n platform =
  split_dot :: "string \<Rightarrow> string list"
  b64urlDec :: "string \<Rightarrow> string option"
  ed25519_verify :: "string \<Rightarrow> string \<Rightarrow> string \<Rightarrow> bool option"
  json_parse :: "string \<Rightarrow> 'n json option"
  longValue :: "'n \<Rightarrow> int"
  intValue :: "'n \<Rightarrow> int"

text \<open>The fields of \<open>Config\<close> that the verification of tokens reads, with their values.\<close>

record Config =
  failClosed :: bool
  requireConsent :: bool
  requireCapabilityForTools :: bool
  consentAudience :: string
  capAudience :: string
  consentTtlSeconds :: int
  capTtlSeconds :: int
  nonceTtlSeconds :: int

definition new_Config :: Config where
  "new_Config =
     \<lparr>failClosed = True, requireConsent = True, requireCapabilityForTools = True,
      consentAudience = ''oi-runtime'', capAudience = ''oi-runtime'',
      consentTtlSeconds = 120, capTtlSeconds = 3600, nonceTtlSeconds = 300\<rparr>"

text \<open>\<open>String.isBlank\<close>, on the white space of ASCII.\<close>

definition isWhitespace :: "char \<Rightarrow> bool" where
  "isWhitespace c =
     (c = CHR '' '' \<or> (9 \<le> (of_char c :: nat) \<and> (of_char c :: nat) \<le> 13) \<or>
      (28 \<le> (of_char c :: nat) \<and> (of_char c :: nat) \<le> 31))"

definition isBlank :: "string \<Rightarrow> bool" where
  "isBlank s = list_all isWhitespace s"

record NonceCache =
  seen :: "string \<rightharpoonup> int"
  ttlSec :: int

definition new_NonceCache :: "int \<Rightarrow> NonceCache" where
  "new_NonceCache ttl = \<lparr>seen = Map.empty, ttlSec = ttl\<rparr>"

definition cleanup :: "NonceCache \<Rightarrow> int \<Rightarrow> NonceCache" where
  "cleanup c now =
     c\<lparr>seen := (\<lambda>k. case seen c k of
                       None \<Rightarrow> None
                     | Some t \<Rightarrow> if now - t > ttlSec c then None else Some t)\<rparr>"

text \<open>\<open>checkAndStore\<close>; the nonce may be \<open>null\<close>. \<open>putIfAbsent\<close> stores only a new key.\<close>

definition checkAndStore :: "NonceCache \<Rightarrow> string option \<Rightarrow> int \<Rightarrow> bool \<times> NonceCache" where
  "checkAndStore c nonce now =
     (case nonce of
        None \<Rightarrow> (False, c)
      | Some n \<Rightarrow>
          if isBlank n then (False, c)
          else
            let c = cleanup c now
            in (case seen c n of
                  None \<Rightarrow> (True, c\<lparr>seen := (seen c)(n \<mapsto> now)\<rparr>)
                | Some t \<Rightarrow> (False, c)))"

record SigBox =
  kid :: string
  publicKey :: string

datatype gateway_error =
    MissingConsentToken
  | BadToken
  | DecoderException
  | SignatureException
  | SigInvalid
  | JsonException
  | PayloadNotObject
  | MissingExp
  | TokenExpired
  | ConsentBadVersion
  | ConsentBadAud
  | ConsentReplayOrMissingNonce
  | ConsentActHashMismatch

definition asString :: "'n json option \<Rightarrow> string option" where
  "asString obj = (case obj of Some (JStr s) \<Rightarrow> Some s | _ \<Rightarrow> None)"

definition asInt :: "'n platform \<Rightarrow> 'n json option \<Rightarrow> int \<Rightarrow> int" where
  "asInt P obj d = (case obj of Some (JNum n) \<Rightarrow> intValue P n | _ \<Rightarrow> d)"

definition verifySignedToken ::
  "'n platform \<Rightarrow> SigBox \<Rightarrow> string \<Rightarrow> int \<Rightarrow> gateway_error + (string \<times> 'n json) list" where
  "verifySignedToken P box token now =
     (case split_dot P token of
        [part0, part1] \<Rightarrow>
          (case b64urlDec P part0 of
             None \<Rightarrow> Inl DecoderException
           | Some payload \<Rightarrow>
               (case b64urlDec P part1 of
                  None \<Rightarrow> Inl DecoderException
                | Some sig \<Rightarrow>
                    (case ed25519_verify P (publicKey box) payload sig of
                       None \<Rightarrow> Inl SignatureException
                     | Some ok \<Rightarrow>
                         if \<not> ok then Inl SigInvalid
                         else (case json_parse P payload of
                                 None \<Rightarrow> Inl JsonException
                               | Some parsed \<Rightarrow>
                                   (case parsed of
                                      JObj m \<Rightarrow>
                                        (case map_of m ''exp'' of
                                           Some (JNum expO) \<Rightarrow>
                                             if now > longValue P expO then Inl TokenExpired
                                             else Inr m
                                         | _ \<Rightarrow> Inl MissingExp)
                                    | _ \<Rightarrow> Inl PayloadNotObject)))))
      | _ \<Rightarrow> Inl BadToken)"

text \<open>
  \<open>verifyConsent\<close> of the application, whose consent keys are \<open>box\<close> and whose nonce cache
  is threaded through; the consent token may be \<open>null\<close>. \<open>None\<close> is the normal return. A
  call reads the clock twice: \<open>now1\<close> is the reading of \<open>verifySignedToken\<close>, for the
  expiry, and \<open>now2\<close> the later reading of \<open>checkAndStore\<close>, for the nonce cache.
\<close>

definition verifyConsent ::
  "'n platform \<Rightarrow> Config \<Rightarrow> SigBox \<Rightarrow> NonceCache \<Rightarrow> int \<Rightarrow> int \<Rightarrow> string option \<Rightarrow> string \<Rightarrow>
   gateway_error option \<times> NonceCache" where
  "verifyConsent P cfg box nonces now1 now2 consentToken expectedActHash =
     (if \<not> requireConsent cfg then (None, nonces)
      else (case consentToken of
              None \<Rightarrow> (Some MissingConsentToken, nonces)
            | Some token \<Rightarrow>
                if isBlank token then (Some MissingConsentToken, nonces)
                else (case verifySignedToken P box token now1 of
                        Inl e \<Rightarrow> (Some e, nonces)
                      | Inr p \<Rightarrow>
                          if asInt P (map_of p ''v'') (- 1) \<noteq> 1 then (Some ConsentBadVersion, nonces)
                          else if Some (consentAudience cfg) \<noteq> asString (map_of p ''aud'')
                            then (Some ConsentBadAud, nonces)
                          else (case checkAndStore nonces (asString (map_of p ''nonce'')) now2 of
                                  (stored, nonces) \<Rightarrow>
                                    if \<not> stored then (Some ConsentReplayOrMissingNonce, nonces)
                                    else if asString (map_of p ''act_hash'') \<noteq> Some expectedActHash
                                      then (Some ConsentActHashMismatch, nonces)
                                    else (None, nonces)))))"

text \<open>
  What a consent token says, read without any check: its payload, and the nonce, the expiry
  and the action hash in it.
\<close>

definition payload_of :: "'n platform \<Rightarrow> string \<Rightarrow> (string \<times> 'n json) list option" where
  "payload_of P token =
     (case split_dot P token of
        [part0, part1] \<Rightarrow>
          (case b64urlDec P part0 of
             None \<Rightarrow> None
           | Some payload \<Rightarrow>
               (case json_parse P payload of Some (JObj m) \<Rightarrow> Some m | _ \<Rightarrow> None))
      | _ \<Rightarrow> None)"

definition signature_verifies :: "'n platform \<Rightarrow> SigBox \<Rightarrow> string \<Rightarrow> bool" where
  "signature_verifies P box token =
     (\<exists>part0 part1 payload sig.
        split_dot P token = [part0, part1] \<and> b64urlDec P part0 = Some payload \<and>
        b64urlDec P part1 = Some sig \<and>
        ed25519_verify P (publicKey box) payload sig = Some True)"

definition nonce_of :: "'n platform \<Rightarrow> string \<Rightarrow> string option" where
  "nonce_of P token = (case payload_of P token of None \<Rightarrow> None | Some m \<Rightarrow> asString (map_of m ''nonce''))"

definition exp_of :: "'n platform \<Rightarrow> string \<Rightarrow> int option" where
  "exp_of P token =
     (case payload_of P token of
        None \<Rightarrow> None
      | Some m \<Rightarrow> (case map_of m ''exp'' of Some (JNum e) \<Rightarrow> Some (longValue P e) | _ \<Rightarrow> None))"

definition aud_of :: "'n platform \<Rightarrow> string \<Rightarrow> string option" where
  "aud_of P token = (case payload_of P token of None \<Rightarrow> None | Some m \<Rightarrow> asString (map_of m ''aud''))"

definition act_hash_of :: "'n platform \<Rightarrow> string \<Rightarrow> string option" where
  "act_hash_of P token =
     (case payload_of P token of None \<Rightarrow> None | Some m \<Rightarrow> asString (map_of m ''act_hash''))"

text \<open>
  The nonce cache after a list of calls of \<open>verifyConsent\<close>, each with its two readings of
  the clock, its token and its expected hash.
\<close>

fun verify_all ::
  "'n platform \<Rightarrow> Config \<Rightarrow> SigBox \<Rightarrow> NonceCache \<Rightarrow>
   (int \<times> int \<times> string option \<times> string) list \<Rightarrow> NonceCache" where
  "verify_all P cfg box c [] = c"
| "verify_all P cfg box c ((now1, now2, consentToken, expectedActHash) # calls) =
     verify_all P cfg box
       (snd (verifyConsent P cfg box c now1 now2 consentToken expectedActHash)) calls"

section \<open>Concrete inputs\<close>

text \<open>
  The two functions of the package \<open>strings\<close> on ASCII text, where a rune is a byte and the
  only letters are the 26 of ASCII. The inputs below are ASCII.
\<close>

definition lower_char :: "char \<Rightarrow> char" where
  "lower_char c =
     (case map_of (zip ''ABCDEFGHIJKLMNOPQRSTUVWXYZ'' ''abcdefghijklmnopqrstuvwxyz'') c of
        None \<Rightarrow> c
      | Some l \<Rightarrow> l)"

definition ascii_strings :: go_strings where
  "ascii_strings =
     \<lparr>ToLower = map lower_char,
      Map_runes = (\<lambda>mapping s.
         concat (map (\<lambda>c. if mapping (of_char c) < 0 then []
                           else [char_of (mapping (of_char c))]) s))\<rparr>"

definition wildcard_token :: Token where
  "wildcard_token =
     \<lparr>Issuer = ''kernel'', Subject = ''p'', Audience = ''adapters'', Scope = [''*''],
      Limits = \<lparr>MaxDepth = 10, MaxBudget = 1000, WorkspaceBounds = []\<rparr>, TTL = 300000000000,
      IssuedAt = 0, ExpiresAt = 300000000000,
      PostureBounds = \<lparr>MinPosture = 1, MaxPosture = 4\<rparr>, NamespaceID = ''n'',
      PrincipalID = ''p'', Digest = ''d'', RevokedAt = None\<rparr>"


definition stopped_ledger :: "(string \<Rightarrow> string) \<Rightarrow> Ledger" where
  "stopped_ledger H =
     AppendAdapterAttempt H 2000000000
       (AppendStopEvent H 1000000000 (NewLedger H 0) 5) ''mock_adapter'' False ''d''"

definition no_request_context :: DecisionContext where
  "no_request_context =
     \<lparr>Request = None, DecisionContext.PostureLevel = 1, GovernanceRules = Some Map.empty,
      DecisionContext.IntegrityState = ''INTEGRITY_OK'',
      DecisionContext.ActiveConsents = Some Map.empty\<rparr>"

definition medium_request :: LabeledRequest where
  "medium_request =
     \<lparr>OriginalInput = ''test input'', SanitizedInput = ''test input'', TaintLabels = [''clean''],
      LabeledRequest.SensitivityLevel = ''medium'', InputHash = [],
      LabeledRequest.Metadata = None\<rparr>"

definition medium_context :: DecisionContext where
  "medium_context =
     \<lparr>Request = Some medium_request, DecisionContext.PostureLevel = 1,
      GovernanceRules = Some (Map.empty(''exists'' \<mapsto> VBool True)),
      DecisionContext.IntegrityState = ''INTEGRITY_OK'',
      DecisionContext.ActiveConsents = Some Map.empty\<rparr>"

definition void_context :: DecisionContext where
  "void_context = medium_context\<lparr>DecisionContext.IntegrityState := ''INTEGRITY_VOID''\<rparr>"

text \<open>The state of the kernel's tests: a fresh state with the mock adapter registered.\<close>

definition test_state :: SystemState where
  "test_state =
     (NewSystemState (\<lambda>s. s) 0 ''test_principal'' ''test_namespace'')
       \<lparr>AdapterRegistry := snd (Register NewRegistry (NewMockAdapter ''mock_adapter'')),
        GovernanceCapsule := \<lparr>PolicyVersion = ''v1'',
                               Rules = Some (Map.empty(''exists'' \<mapsto> VBool True)),
                               Commitments = Map.empty\<rparr>\<rparr>"


definition numeric_sensitivity_request :: Request where
  "numeric_sensitivity_request =
     \<lparr>RawInput = ''hello'', Request.Metadata = Some (Map.empty(''sensitivity'' \<mapsto> VInt 3))\<rparr>"



text \<open>
  A platform to run the gateway on: tokens are split at their only dot, the decoder is the
  identity, a signature is the key followed by the message, and the reader knows one
  payload.
\<close>

fun toy_split :: "string \<Rightarrow> string list" where
  "toy_split [] = [[]]"
| "toy_split (c # cs) =
     (if c = CHR ''.'' then [] # toy_split cs
      else (case toy_split cs of [] \<Rightarrow> [[c]] | p # ps \<Rightarrow> (c # p) # ps))"

definition toy_platform :: "int platform" where
  "toy_platform =
     \<lparr>split_dot = toy_split,
      b64urlDec = Some,
      ed25519_verify = (\<lambda>key msg sig. Some (sig = key @ msg)),
      json_parse = (\<lambda>s. if s = ''consent'' then
                            Some (JObj [(''v'', JNum 1), (''kid'', JStr ''consent-root''),
                                        (''aud'', JStr ''oi-runtime''), (''exp'', JNum 1000),
                                        (''nonce'', JStr ''n-1''), (''act_hash'', JStr ''h-ask-X'')])
                          else None),
      longValue = (\<lambda>n. n),
      intValue = (\<lambda>n. n)\<rparr>"

definition toy_box :: SigBox where
  "toy_box = \<lparr>kid = ''consent-root'', publicKey = ''K''\<rparr>"

definition toy_token :: string where
  "toy_token = ''consent.Kconsent''"

section \<open>Properties of capability tokens\<close>

lemma scope_loop_mem: "scope_loop ss operation = (operation \<in> set ss)"
  by (induction ss) auto

text \<open>
  Claim C6, as stated: \<open>HasScope\<close> is true iff the operation is literally in the scope list
  or the scope list contains the wildcard \<open>*\<close>. The code does not look for the wildcard:
  a token whose scope is exactly the wildcard does not have the scope \<open>read\<close>.
\<close>

theorem C6_HasScope_wildcard_counterexample:
  "\<not> (HasScope wildcard_token ''read'' =
        (''read'' \<in> set (Scope wildcard_token) \<or> ''*'' \<in> set (Scope wildcard_token)))"
  by (simp add: HasScope_def wildcard_token_def)

text \<open>
  Claim C6, amended: for every capability token and every operation name, \<open>HasScope\<close>
  returns true iff the operation string is literally present in the token's scope list.
  (The wildcard is a literal like any other: it is found only when the operation asked for
  is the wildcard itself.)
\<close>

theorem C6_HasScope_literal:
  "HasScope t operation = (operation \<in> set (Scope t))"
  by (simp add: HasScope_def scope_loop_mem)

section \<open>Properties of the memory manager\<close>

lemma policy_at_Write: "policy_at (snd (Write H m pname eid content metadata)) = policy_at m"
  by (rule ext) (auto simp: policy_at_def Write_def Let_def split: option.splits)

lemma policy_at_Promote:
  "PromoteFromQuarantine m eid r = Inr (e, m') \<Longrightarrow> policy_at m' = policy_at m"
  by (rule ext)
     (auto simp: policy_at_def PromoteFromQuarantine_def Let_def Partition_names
           split: option.splits if_splits)

lemma reachable_policy: "reachable H m \<Longrightarrow> policy_at m = policy_at NewManager"
  by (induction rule: reachable.induct) (simp_all add: policy_at_Write policy_at_Promote)

lemma policy_at_New:
  "policy_at NewManager pname =
     (if pname = PartitionEvidence
        then Some \<lparr>AllowWrite = True, AllowRead = True, RequireCapability = True, AppendOnly = True\<rparr>
      else if pname = PartitionQuarantine
        then Some \<lparr>AllowWrite = True, AllowRead = False, RequireCapability = False, AppendOnly = True\<rparr>
      else if pname = PartitionProvenance
        then Some \<lparr>AllowWrite = True, AllowRead = True, RequireCapability = False, AppendOnly = True\<rparr>
      else if pname = PartitionCommitments
        then Some \<lparr>AllowWrite = True, AllowRead = True, RequireCapability = True, AppendOnly = False\<rparr>
      else if pname = PartitionDurable
        then Some \<lparr>AllowWrite = True, AllowRead = True, RequireCapability = True, AppendOnly = False\<rparr>
      else if pname = PartitionEphemeral
        then Some \<lparr>AllowWrite = True, AllowRead = True, RequireCapability = False, AppendOnly = False\<rparr>
      else None)"
  by (simp add: policy_at_def NewManager_def new_partition_def)

lemma reachable_quarantine:
  "reachable H m \<Longrightarrow> \<exists>q. partitions m PartitionQuarantine = Some q \<and> \<not> AllowRead (Policy q)"
  using reachable_policy[of H m] policy_at_New[of PartitionQuarantine]
  by (auto simp: policy_at_def Partition_names dest!: fun_cong[where x = PartitionQuarantine])





lemma Promote_not_found:
  "reachable H m \<Longrightarrow> entry_at m PartitionQuarantine eid = None \<Longrightarrow>
   PromoteFromQuarantine m eid r = Inr (Some (NotFoundInQuarantine eid), m)"
  by (auto simp: PromoteFromQuarantine_def entry_at_def dest!: reachable_quarantine
           split: option.splits)







text \<open>
  Claim C8 says that a successful \<open>Write\<close> stores the entry with the current time. The
  code stamps it with \<open>currentTimestamp()\<close>, which returns the constant 0: the write of the
  package's own test, whenever it runs, stores timestamp 0 (with the hash of the content and
  \<open>verified = false\<close>, as the claim says).
\<close>

theorem C8_Write_timestamp_is_zero:
  "fst (Write H NewManager PartitionEphemeral ''test_id'' ''test content'' None) = None \<and>
   entry_at (snd (Write H NewManager PartitionEphemeral ''test_id'' ''test content'' None))
     PartitionEphemeral ''test_id'' =
     Some \<lparr>ID = ''test_id'', Entry.Partition = PartitionEphemeral, Entry.Content = ''test content'',
           Entry.ContentHash = H ''test content'', Entry.Metadata = Map.empty, Entry.Timestamp = 0,
           Verified = False\<rparr>"
  by (simp add: Write_def NewManager_def new_partition_def entry_at_def Partition_names
        currentTimestamp_def)

text \<open>The other parts of claim C8 hold of the code.\<close>

lemma Write_failures:
  "partitions m pname = None \<Longrightarrow>
     Write H m pname eid content metadata = (Some (PartitionDoesNotExist pname), m)"
  "partitions m pname = Some p \<Longrightarrow> \<not> AllowWrite (Policy p) \<Longrightarrow>
     Write H m pname eid content metadata = (Some (ReadOnlyPartition pname), m)"
  "partitions m pname = Some p \<Longrightarrow> AllowWrite (Policy p) \<Longrightarrow> AppendOnly (Policy p) \<Longrightarrow>
     Entries p eid = Some old \<Longrightarrow>
     Write H m pname eid content metadata = (Some (AppendOnlyViolation pname eid), m)"
  by (simp_all add: Write_def)

lemma Write_unknown_partition:
  "reachable H m \<Longrightarrow>
   pname \<notin> {PartitionEphemeral, PartitionDurable, PartitionCommitments, PartitionProvenance,
             PartitionQuarantine, PartitionEvidence} \<Longrightarrow>
   Write H m pname eid content metadata = (Some (PartitionDoesNotExist pname), m)"
  using reachable_policy[of H m] policy_at_New[of pname]
  by (auto simp: Write_def policy_at_def split: option.splits dest!: fun_cong[where x = pname])

lemma Write_success:
  "Write H m pname eid content metadata = (None, m') \<Longrightarrow>
   \<exists>e. entry_at m' pname eid = Some e \<and> Entry.ContentHash e = H content \<and>
       Entry.Timestamp e = currentTimestamp \<and> \<not> Verified e \<and> Entry.Content e = content"
  by (auto simp: Write_def entry_at_def Let_def split: option.splits if_splits)

section \<open>Properties of the audit ledger\<close>

lemma fmt_v_int_as_string: "fmt_v (VInt 5) = fmt_v (VStr ''5'')"
  by (simp add: show_int_def show_nat.simps digit_char_def)

lemma computeHash_text: "computeHash H r = H (hashed_text r)"
  by (simp add: computeHash_def hashed_text_def)

lemma verify_loop_chained:
  "\<forall>r \<in> set rs. CurrentHash r = computeHash H r \<Longrightarrow>
   (\<forall>i < length rs. 0 < i \<longrightarrow> PrevHash (rs ! i) = CurrentHash (rs ! (i - 1))) \<Longrightarrow>
   (\<forall>p. prev = Some p \<longrightarrow> rs \<noteq> [] \<longrightarrow> PrevHash (hd rs) = CurrentHash p) \<Longrightarrow>
   verify_loop H i prev rs = (True, None)"
proof (induction rs arbitrary: i prev)
  case Nil
  then show ?case by simp
next
  case (Cons r rs)
  have link: "\<forall>i < length rs. 0 < i \<longrightarrow> PrevHash (rs ! i) = CurrentHash (rs ! (i - 1))"
  proof (intro allI impI)
    fix j assume "j < length rs" "0 < j"
    with Cons.prems(2)[rule_format, of "Suc j"] show "PrevHash (rs ! j) = CurrentHash (rs ! (j - 1))"
      by (cases j) auto
  qed
  have first: "\<forall>p. Some r = Some p \<longrightarrow> rs \<noteq> [] \<longrightarrow> PrevHash (hd rs) = CurrentHash p"
    using Cons.prems(2)[rule_format, of 1] by (cases rs) auto
  have ih: "verify_loop H (Suc i) (Some r) rs = (True, None)"
    using Cons.IH[OF _ link first] Cons.prems(1) by simp
  show ?case
    using Cons.prems(1,3) ih by (cases prev) auto
qed

lemma built_invariant:
  "built H l \<Longrightarrow>
     receipts l \<noteq> [] \<and> chained H (receipts l) \<and>
     Sequence (hd (receipts l)) = 0 \<and> PrevHash (hd (receipts l)) = ''0000000000000000'' \<and>
     (\<forall>i < length (receipts l). Sequence (receipts l ! i) = int i) \<and>
     sequence l = int (length (receipts l)) - 1"
proof (induction rule: built.induct)
  case (built_new now)
  then show ?case
    by (simp add: NewLedger_def chained_def Let_def computeHash_def)
next
  case (built_append l now eventType eventData)
  let ?l' = "append_receipt H now l eventType eventData"
  from built_append.IH have ne: "receipts l \<noteq> []" by simp
  obtain r where rs: "receipts ?l' = receipts l @ [r]"
    and r: "CurrentHash r = computeHash H r" "PrevHash r = CurrentHash (last (receipts l))"
      "Sequence r = sequence l + 1"
    using ne by (simp add: append_receipt_def Let_def computeHash_def)
  have seq: "sequence ?l' = sequence l + 1"
    by (simp add: append_receipt_def Let_def)
  have ch: "chained H (receipts ?l')"
    unfolding chained_def rs
  proof (intro conjI allI impI)
    fix i assume "i < length (receipts l @ [r])"
    then show "CurrentHash ((receipts l @ [r]) ! i) = computeHash H ((receipts l @ [r]) ! i)"
      using built_append.IH r(1) by (cases "i < length (receipts l)") (auto simp: chained_def nth_append)
  next
    fix i assume i: "i < length (receipts l @ [r])" "0 < i"
    show "PrevHash ((receipts l @ [r]) ! i) = CurrentHash ((receipts l @ [r]) ! (i - 1))"
    proof (cases "i < length (receipts l)")
      case True
      then show ?thesis
        using built_append.IH i by (auto simp: chained_def nth_append)
    next
      case False
      with i have "i = length (receipts l)" by simp
      then show ?thesis
        using r(2) ne by (simp add: nth_append last_conv_nth)
    qed
  qed
  have seqs: "\<forall>i < length (receipts ?l'). Sequence (receipts ?l' ! i) = int i"
    unfolding rs using built_append.IH r(3)
    by (auto simp: nth_append less_Suc_eq)
  show ?case
    using ne ch seqs seq built_append.IH unfolding rs by (auto simp: hd_append)
qed

text \<open>
  The first half of claim C4 holds of the code: in every ledger built from \<open>NewLedger\<close> by
  the \<open>Append*\<close> operations each receipt carries the hash of its own fields, each receipt
  but the first carries the hash of its predecessor, the genesis receipt has sequence 0
  and the fixed previous hash, and \<open>Verify\<close> returns true.
\<close>

lemma built_Verify:
  assumes "built H l"
  shows "Verify_ledger H l = (True, None)"
proof -
  from built_invariant[OF assms] have ne: "receipts l \<noteq> []" and ch: "chained H (receipts l)"
    by simp_all
  from ch have "\<forall>r \<in> set (receipts l). CurrentHash r = computeHash H r"
    by (auto simp: chained_def in_set_conv_nth)
  moreover from ch have
    "\<forall>i < length (receipts l). 0 < i \<longrightarrow>
       PrevHash (receipts l ! i) = CurrentHash (receipts l ! (i - 1))"
    by (simp add: chained_def)
  ultimately have "verify_loop H 0 None (receipts l) = (True, None)"
    by (intro verify_loop_chained) simp_all
  with ne show ?thesis by (simp add: Verify_ledger_def)
qed

lemma verify_loop_result:
  "verify_loop H i prev rs = (b, e) \<Longrightarrow>
     (b \<longrightarrow> e = None \<and> (\<forall>r \<in> set rs. CurrentHash r = computeHash H r)) \<and>
     (\<not> b \<longrightarrow> (\<exists>j x y. e = Some (HashMismatch j x y) \<or> e = Some (ChainBreak j x y)))"
proof (induction rs arbitrary: i prev)
  case Nil
  then show ?case by auto
next
  case (Cons r rs)
  show ?case
  proof (cases "CurrentHash r = computeHash H r")
    case False
    with Cons.prems show ?thesis by (auto simp: Let_def)
  next
    case True
    show ?thesis
    proof (cases "\<exists>p. prev = Some p \<and> PrevHash r \<noteq> CurrentHash p")
      case True
      with \<open>CurrentHash r = computeHash H r\<close> Cons.prems show ?thesis
        by (auto simp: Let_def)
    next
      case False
      with True Cons.prems have "verify_loop H (Suc i) (Some r) rs = (b, e)"
        by (auto simp: Let_def split: option.splits if_splits)
      from Cons.IH[OF this] True show ?thesis by auto
    qed
  qed
qed

lemma Verify_ledger_detects:
  assumes "r \<in> set (receipts l)" and "CurrentHash r \<noteq> computeHash H r"
  shows "\<exists>j x y. Verify_ledger H l = (False, Some (HashMismatch j x y)) \<or>
                 Verify_ledger H l = (False, Some (ChainBreak j x y))"
proof -
  from assms(1) have ne: "receipts l \<noteq> []" by auto
  obtain b e where be: "verify_loop H 0 None (receipts l) = (b, e)"
    by (cases "verify_loop H 0 None (receipts l)")
  from verify_loop_result[OF be] assms have "\<not> b" by auto
  with verify_loop_result[OF be] be ne show ?thesis
    by (auto simp: Verify_ledger_def)
qed

text \<open>
  What the chain does detect, when the hash function is free of collisions: in a ledger
  built by the operations, a receipt overwritten so that the text that is hashed changes
  while its stored hash stays, or so that its stored hash changes while that text stays,
  makes \<open>Verify\<close> return false with a hash mismatch or a chain break.
\<close>

lemma tamper_detected:
  assumes "inj H" and "built H l" and "i < length (receipts l)"
    and "(CurrentHash (f (receipts l ! i)) = CurrentHash (receipts l ! i) \<and>
          hashed_text (f (receipts l ! i)) \<noteq> hashed_text (receipts l ! i)) \<or>
         (CurrentHash (f (receipts l ! i)) \<noteq> CurrentHash (receipts l ! i) \<and>
          hashed_text (f (receipts l ! i)) = hashed_text (receipts l ! i))"
  shows "\<exists>j x y. Verify_ledger H (tamper l i f) = (False, Some (HashMismatch j x y)) \<or>
                 Verify_ledger H (tamper l i f) = (False, Some (ChainBreak j x y))"
proof -
  let ?r = "receipts l ! i"
  from built_invariant[OF assms(2)] assms(3) have own: "CurrentHash ?r = computeHash H ?r"
    by (simp add: chained_def)
  have "CurrentHash (f ?r) \<noteq> computeHash H (f ?r)"
    using assms(4) own by (auto simp: computeHash_text inj_eq[OF assms(1)])
  moreover have "f ?r \<in> set (receipts (tamper l i f))"
    using assms(3) by (simp add: tamper_def set_update_memI)
  ultimately show ?thesis by (rule Verify_ledger_detects[rotated])
qed

lemma tamper_EventType_detected:
  assumes "inj H" and "built H l" and "i < length (receipts l)"
    and "ty \<noteq> EventType (receipts l ! i)"
  shows "\<exists>j x y. Verify_ledger H (tamper l i (\<lambda>r. r\<lparr>EventType := ty\<rparr>)) =
                   (False, Some (HashMismatch j x y)) \<or>
                 Verify_ledger H (tamper l i (\<lambda>r. r\<lparr>EventType := ty\<rparr>)) =
                   (False, Some (ChainBreak j x y))"
  using assms(4) by (intro tamper_detected[OF assms(1-3)]) (simp add: hashed_text_def)

lemma tamper_PrevHash_detected:
  assumes "inj H" and "built H l" and "i < length (receipts l)"
    and "h \<noteq> PrevHash (receipts l ! i)"
  shows "\<exists>j x y. Verify_ledger H (tamper l i (\<lambda>r. r\<lparr>PrevHash := h\<rparr>)) =
                   (False, Some (HashMismatch j x y)) \<or>
                 Verify_ledger H (tamper l i (\<lambda>r. r\<lparr>PrevHash := h\<rparr>)) =
                   (False, Some (ChainBreak j x y))"
  using assms(4) by (intro tamper_detected[OF assms(1-3)]) (simp add: hashed_text_def)

lemma tamper_CurrentHash_detected:
  assumes "inj H" and "built H l" and "i < length (receipts l)"
    and "h \<noteq> CurrentHash (receipts l ! i)"
  shows "\<exists>j x y. Verify_ledger H (tamper l i (\<lambda>r. r\<lparr>CurrentHash := h\<rparr>)) =
                   (False, Some (HashMismatch j x y)) \<or>
                 Verify_ledger H (tamper l i (\<lambda>r. r\<lparr>CurrentHash := h\<rparr>)) =
                   (False, Some (ChainBreak j x y))"
  using assms(4) by (intro tamper_detected[OF assms(1-3)]) (simp add: hashed_text_def)

lemma fmt_v_tokens_revoked:
  "fmt_v (VMap [(''tokens_revoked'', VStr ''5'')]) = fmt_v (VMap [(''tokens_revoked'', VInt 5)])"
  using fmt_v_int_as_string by simp

text \<open>
  Claim C4 says that after any single field of any past receipt is mutated, \<open>Verify\<close>
  returns false. The hash covers the event data through the verb \<open>%v\<close>, which prints the
  integer 5 and the string \<open>5\<close> alike: in the ledger of a stop event that revoked five
  tokens, followed by another receipt, overwriting the count of the stop receipt with the
  string changes the receipt and \<open>Verify\<close> still returns true, whatever the hash function.
\<close>

theorem C4_tampered_event_data_verifies:
  "receipts (tamper (stopped_ledger H) 1 (\<lambda>r. r\<lparr>EventData := [(''tokens_revoked'', VStr ''5'')]\<rparr>))
     \<noteq> receipts (stopped_ledger H) \<and>
   Verify_ledger H (stopped_ledger H) = (True, None) \<and>
   Verify_ledger H
     (tamper (stopped_ledger H) 1 (\<lambda>r. r\<lparr>EventData := [(''tokens_revoked'', VStr ''5'')]\<rparr>)) =
     (True, None)"
  using fmt_v_tokens_revoked
  by (simp add: stopped_ledger_def tamper_def Verify_ledger_def AppendAdapterAttempt_def
        AppendStopEvent_def append_receipt_def NewLedger_def Let_def computeHash_def
      del: fmt_v.simps)

section \<open>Properties of the decision engine\<close>

lemma IsTainted_tainted: "IsTainted request = tainted request"
  by (simp add: IsTainted_def tainted_def list_ex_iff)

lemma hasConsent_active: "hasConsent (DecisionContext.ActiveConsents ctx) k = consent_active ctx k"
  by (auto simp: hasConsent_def consent_active_def split: option.splits)

text \<open>
  The ten rules hold of the code for every context that carries a request: \<open>Decide\<close>
  answers a nil context with \<open>DENY\<close>, reason \<open>nil context\<close> (and an error); a context in
  state \<open>INTEGRITY_VOID\<close> with \<open>DENY\<close>, reason \<open>integrity_void\<close>; and a context with a
  request with the outcome (decision, reason, scope) of the first of the rules 2 to 10 of
  the specification whose condition holds.
\<close>

lemma Decide_rules:
  "Decide None = Inr (bare_result DENY ''nil context'', Some NilDecisionContext) \<and>
   (DecisionContext.IntegrityState ctx = ''INTEGRITY_VOID'' \<longrightarrow>
      Decide (Some ctx) = Inr (bare_result DENY ''integrity_void'', None)) \<and>
   (\<forall>request. Request ctx = Some request \<longrightarrow>
      (\<exists>res. Decide (Some ctx) = Inr (res, None) \<and>
             first_match (spec_rules ctx request) = Some (outcome res)))"
  by (auto simp: Decide_def evaluateRequest_def spec_rules_def outcome_def bare_result_def
        IsTainted_tainted hasConsent_active Let_def)

lemma Decide_rules_medium:
  "Request medium_context = Some medium_request \<and>
   Decide (Some medium_context) =
     Inr (\<lparr>Decision = DEGRADE, Reason = ''medium_sensitivity'',
           DegradedScope = [''query'', ''search'', ''read''], RequiredPosture = 1,
           DecisionResult.Metadata = None\<rparr>, None) \<and>
   first_match (spec_rules medium_context medium_request) =
     Some (DEGRADE, ''medium_sensitivity'', {''query'', ''search'', ''read''}) \<and>
   DecisionContext.IntegrityState void_context = ''INTEGRITY_VOID'' \<and>
   Decide (Some void_context) = Inr (bare_result DENY ''integrity_void'', None)"
proof -
  have r: "Request medium_context = Some medium_request"
    by (simp add: medium_context_def)
  have v: "DecisionContext.IntegrityState void_context = ''INTEGRITY_VOID''"
    by (simp add: void_context_def)
  have d: "Decide (Some medium_context) =
     Inr (\<lparr>Decision = DEGRADE, Reason = ''medium_sensitivity'',
           DegradedScope = [''query'', ''search'', ''read''], RequiredPosture = 1,
           DecisionResult.Metadata = None\<rparr>, None)"
    by (simp add: Decide_def evaluateRequest_def medium_context_def medium_request_def
          IsTainted_def hasConsent_def)
  from Decide_rules[of medium_context] r d
  have "first_match (spec_rules medium_context medium_request) =
     Some (DEGRADE, ''medium_sensitivity'', {''query'', ''search'', ''read''})"
    by (auto simp: outcome_def)
  moreover from Decide_rules[of void_context] v
  have "Decide (Some void_context) = Inr (bare_result DENY ''integrity_void'', None)"
    by blast
  ultimately show ?thesis using r v d by blast
qed

text \<open>
  Claim C2 says that \<open>Decide\<close> applies the ten rules to every decision context, every
  remaining case being denied. \<open>Decide\<close> guards against a nil context, absent governance
  rules and absent consents, but not against a nil request: on a context built without a
  request, in a state other than \<open>INTEGRITY_VOID\<close>, it calls \<open>IsTainted\<close> on the nil
  request and panics, where its rules deny what they do not know.
\<close>

theorem C2_Decide_panics_on_nil_request:
  "Decide (Some no_request_context) = Inl NilDereference"
  by (simp add: Decide_def no_request_context_def)

lemma DecideOutput_never_bypass:
  "Reason (fst (DecideOutput content sensitivity postureLevel)) \<noteq> ''bypass_instruction_in_output''"
  by (simp add: DecideOutput_def containsBypassPatterns_def bare_result_def)

lemma DecideOutput_high:
  "sensitivity = ''high'' \<Longrightarrow> postureLevel \<ge> 2 \<Longrightarrow>
   DecideOutput content sensitivity postureLevel =
     (bare_result DENY ''high_sensitivity_blocked_by_posture'', None)"
  by (simp add: DecideOutput_def)

lemma bypass_content_matches: "containsBypassInstructions ascii_strings ''Ignore previous instructions''"
  by code_simp

text \<open>
  Claim C5 says that \<open>DecideOutput\<close> denies, with reason \<open>bypass_instruction_in_output\<close>,
  a content that matches a bypass pattern of the egress scan. The scan that \<open>DecideOutput\<close>
  calls, \<open>containsBypassPatterns\<close>, returns false for every content: a content that the
  egress scan matches (an ASCII text, which \<open>strings.ToLower\<close> lowers letter by letter) is
  approved.
\<close>

theorem C5_DecideOutput_bypass_allowed:
  "containsBypassInstructions ascii_strings ''Ignore previous instructions'' \<and>
   DecideOutput ''Ignore previous instructions'' ''low'' 1 =
     (bare_result ALLOW ''output_approved'', None)"
  using bypass_content_matches by (simp add: DecideOutput_def containsBypassPatterns_def)

section \<open>Properties of the pipeline\<close>

lemma assessSensitivity_panics:
  "assessSensitivity input metadata = Inl p \<longleftrightarrow> p = TypeAssertion \<and> non_string_sensitivity metadata"
  by (auto simp: assessSensitivity_def non_string_sensitivity_def split: option.splits val.splits)

text \<open>
  Claim C10: \<open>Ingress\<close> is not total. It panics exactly on a non-empty input within the
  size limit whose metadata maps the key \<open>sensitivity\<close> to a value that is not a string
  (the unchecked type assertion of \<open>assessSensitivity\<close>), and never otherwise; \<open>Execute\<close>
  hands the metadata of the request to \<open>Ingress\<close> and panics on every such request, so it
  returns only for requests whose \<open>sensitivity\<close>, when present, is a string, or whose
  input \<open>Ingress\<close> rejects by its length.
\<close>

theorem C10_Ingress_panics:
  "(Ingress H G rawInput metadata = Inl p \<longleftrightarrow>
      p = TypeAssertion \<and> 0 < length rawInput \<and> length rawInput \<le> 100 * 1024 \<and>
      non_string_sensitivity metadata) \<and>
   (0 < length (RawInput req) \<and> length (RawInput req) \<le> 100 * 1024 \<and>
    non_string_sensitivity (Request.Metadata req) \<longrightarrow>
      Execute H G now req state = Inl TypeAssertion)"
proof -
  have i: "Ingress H G rawInput metadata = Inl p \<longleftrightarrow>
      p = TypeAssertion \<and> 0 < length rawInput \<and> length rawInput \<le> 100 * 1024 \<and>
      non_string_sensitivity metadata" for rawInput metadata p
    using assessSensitivity_panics[of rawInput metadata p]
    by (auto simp: Ingress_def Let_def split: sum.splits)
  have "Execute H G now req state = Inl TypeAssertion"
    if "0 < length (RawInput req)" "length (RawInput req) \<le> 100 * 1024"
       "non_string_sensitivity (Request.Metadata req)"
  proof -
    from that i[of "RawInput req" "Request.Metadata req" TypeAssertion]
    have "Ingress H G (RawInput req) (Request.Metadata req) = Inl TypeAssertion" by simp
    then show ?thesis by (simp add: Execute_def)
  qed
  with i show ?thesis by blast
qed

theorem C10_Ingress_panics_witness:
  "0 < length (RawInput numeric_sensitivity_request) \<and>
   length (RawInput numeric_sensitivity_request) \<le> 100 * 1024 \<and>
   non_string_sensitivity (Request.Metadata numeric_sensitivity_request) \<and>
   Ingress (\<lambda>s. s) ascii_strings (RawInput numeric_sensitivity_request)
     (Request.Metadata numeric_sensitivity_request) = Inl TypeAssertion \<and>
   Execute (\<lambda>s. s) ascii_strings 0 numeric_sensitivity_request test_state = Inl TypeAssertion"
proof -
  have n: "non_string_sensitivity (Request.Metadata numeric_sensitivity_request)"
    by (simp add: non_string_sensitivity_def numeric_sensitivity_request_def)
  have l: "0 < length (RawInput numeric_sensitivity_request)"
    "length (RawInput numeric_sensitivity_request) \<le> 100 * 1024"
    by (simp_all add: numeric_sensitivity_request_def)
  from C10_Ingress_panics[where H = "\<lambda>s. s" and G = ascii_strings
      and rawInput = "RawInput numeric_sensitivity_request"
      and metadata = "Request.Metadata numeric_sensitivity_request" and p = TypeAssertion
      and req = numeric_sensitivity_request and now = 0 and state = test_state] n l
  show ?thesis by blast
qed






section \<open>Properties of revocation\<close>



lemma revoke_loop_total:
  "\<forall>(d, a) \<in> set toks. a < length h \<Longrightarrow> \<exists>h'. revoke_loop now toks h = Inr h'"
  by (induction toks arbitrary: h) auto












subsection \<open>Well-formed states\<close>

text \<open>
  The states a program reaches keep the active-token map well formed: its keys are distinct
  and its pointers point to token objects. So \<open>RevokeAllTokens\<close> returns on each of them,
  and the length of the association list is the number of tokens of the map.
\<close>

lemma map_put_set: "set (map_put kvs k v) \<subseteq> insert (k, v) (set kvs)"
  by (induction kvs k v rule: map_put.induct) auto

lemma map_put_keys: "fst ` set (map_put kvs k v) = insert k (fst ` set kvs)"
  by (induction kvs k v rule: map_put.induct) (auto simp: image_iff)

lemma map_put_distinct: "distinct (map fst kvs) \<Longrightarrow> distinct (map fst (map_put kvs k v))"
proof (induction kvs k v rule: map_put.induct)
  case (1 k v)
  then show ?case by simp
next
  case (2 k' v' kvs k v)
  show ?case
  proof (cases "k' = k")
    case True
    with "2.prems" show ?thesis by simp
  next
    case False
    from 2 False have "distinct (map fst (map_put kvs k v))" by simp
    moreover have "k' \<notin> fst ` set (map_put kvs k v)"
      using "2.prems" False by (simp add: map_put_keys)
    ultimately show ?thesis using False by simp
  qed
qed

lemma well_formed_put:
  assumes "well_formed s" and "a < length (TokenHeap s')"
    and "length (TokenHeap s) \<le> length (TokenHeap s')"
    and "ActiveCapabilityTokens s' = map_put (ActiveCapabilityTokens s) d a"
  shows "well_formed s'"
proof -
  have "b < length (TokenHeap s')" if "(k, b) \<in> set (ActiveCapabilityTokens s')" for k b
  proof -
    from that assms(4) map_put_set[of "ActiveCapabilityTokens s" d a]
    have "(k, b) = (d, a) \<or> (k, b) \<in> set (ActiveCapabilityTokens s)" by auto
    with assms(1-3) show ?thesis by (fastforce simp: well_formed_def pointers_valid_def)
  qed
  with assms(1,4) show ?thesis
    by (auto simp: well_formed_def pointers_valid_def map_put_distinct)
qed

lemma well_formed_grow:
  "well_formed s \<Longrightarrow> ActiveCapabilityTokens s' = ActiveCapabilityTokens s \<Longrightarrow>
   length (TokenHeap s) \<le> length (TokenHeap s') \<Longrightarrow> well_formed s'"
  by (fastforce simp: well_formed_def pointers_valid_def)

lemma kernelExecute_tokens:
  "kernelExecute H now a request s = Inr (x, s') \<Longrightarrow>
   ActiveCapabilityTokens s' = ActiveCapabilityTokens s \<and> TokenHeap s' = TokenHeap s"
  by (auto simp: kernelExecute_def Let_def
           split: option.splits if_splits prod.splits val.splits)

lemma Execute_tokens:
  assumes "Execute H G now req s = Inr (x, s')"
  shows "(ActiveCapabilityTokens s' = ActiveCapabilityTokens s \<and> TokenHeap s' = TokenHeap s) \<or>
         (\<exists>t. TokenHeap s' = TokenHeap s @ [t] \<and>
              ActiveCapabilityTokens s' =
                map_put (ActiveCapabilityTokens s) (Digest t) (length (TokenHeap s)))"
  using assms unfolding Execute_def Let_def
  by (auto simp: AddToken_def new_token_def token_at_def mintToken_def
           dest!: kernelExecute_tokens
           split: sum.splits option.splits if_splits prod.splits)

lemma revoke_loop_length: "revoke_loop now toks h = Inr h' \<Longrightarrow> length h' = length h"
  by (induction toks arbitrary: h) (auto split: if_splits)

lemma well_formed_apply_op:
  assumes "well_formed s" and "apply_op H G now op s = Inr s'"
  shows "well_formed s'"
proof (cases op)
  case (OpSetIntegrityState st)
  with assms show ?thesis by (auto simp: SetIntegrityState_def intro: well_formed_grow)
next
  case OpRevokeAllTokens
  with assms(2) obtain h' where
    "revoke_loop now (ActiveCapabilityTokens s) (TokenHeap s) = Inr h'" "TokenHeap s' = h'"
    "ActiveCapabilityTokens s' = ActiveCapabilityTokens s"
    by (auto simp: RevokeAllTokens_def split: sum.splits)
  with revoke_loop_length[OF this(1)] assms(1) show ?thesis
    by (auto intro: well_formed_grow)
next
  case (OpAddToken a)
  with assms(2) have "a < length (TokenHeap s)" "TokenHeap s' = TokenHeap s"
    "ActiveCapabilityTokens s' =
       map_put (ActiveCapabilityTokens s) (Digest (TokenHeap s ! a)) a"
    by (auto simp: AddToken_def token_at_def split: if_splits)
  with assms(1) show ?thesis by (auto intro: well_formed_put)
next
  case (OpExecute req)
  with assms(2) obtain x where "Execute H G now req s = Inr (x, s')"
    by (cases "Execute H G now req s") auto
  from Execute_tokens[OF this] assms(1) show ?thesis
    by (auto intro: well_formed_grow well_formed_put)
next
  case (OpMint issuer subject audience scope limits ttl bounds ns pr)
  with assms show ?thesis
    by (auto simp: new_token_def intro: well_formed_grow)
next
  case (OpRevoke a)
  with assms show ?thesis
    by (auto simp: Revoke_at_def token_at_def split: if_splits intro: well_formed_grow)
qed

lemma well_formed_run_ops:
  "well_formed s \<Longrightarrow> run_ops H G ops s = Inr s' \<Longrightarrow> well_formed s'"
proof (induction ops arbitrary: s)
  case Nil
  then show ?case by simp
next
  case (Cons nop ops)
  obtain now op where nop: "nop = (now, op)" by (cases nop)
  with Cons.prems(2) obtain s1 where
    s1: "apply_op H G now op s = Inr s1" "run_ops H G ops s1 = Inr s'"
    by (auto split: sum.splits)
  from well_formed_apply_op[OF Cons.prems(1) s1(1)] Cons.IH s1(2) show ?case by blast
qed

lemma well_formed_New: "well_formed (NewSystemState H now principalID namespaceID)"
  by (simp add: well_formed_def pointers_valid_def NewSystemState_def)

lemma RevokeAllTokens_returns:
  "run_ops H G ops (NewSystemState H now0 principalID namespaceID) = Inr s \<Longrightarrow>
   \<exists>s'. RevokeAllTokens H now s = Inr s'"
proof -
  assume "run_ops H G ops (NewSystemState H now0 principalID namespaceID) = Inr s"
  from well_formed_run_ops[OF well_formed_New this] have "pointers_valid s"
    by (simp add: well_formed_def)
  then obtain h' where "revoke_loop now (ActiveCapabilityTokens s) (TokenHeap s) = Inr h'"
    using revoke_loop_total[of "ActiveCapabilityTokens s" "TokenHeap s" now]
    by (auto simp: pointers_valid_def)
  then show ?thesis by (simp add: RevokeAllTokens_def)
qed

section \<open>Properties of the gateway's consent verification\<close>

lemma isBlank_Nil: "isBlank []"
  by (simp add: isBlank_def)

lemma verifySignedToken_Inr:
  assumes "verifySignedToken P box token now = Inr m"
  shows "signature_verifies P box token \<and> payload_of P token = Some m \<and>
         (\<exists>e. exp_of P token = Some e \<and> now \<le> e)"
  using assms
  unfolding verifySignedToken_def signature_verifies_def payload_of_def exp_of_def
  by (auto split: list.splits option.splits if_splits json.splits)

lemma checkAndStore_True:
  assumes "checkAndStore c nonce now = (True, c')"
  shows "\<exists>n. nonce = Some n \<and> \<not> isBlank n \<and> seen (cleanup c now) n = None \<and>
             c' = (cleanup c now)\<lparr>seen := (seen (cleanup c now))(n \<mapsto> now)\<rparr>"
  using assms unfolding checkAndStore_def
  by (auto simp: Let_def split: option.splits if_splits)

lemma verifyConsent_success:
  assumes "verifyConsent P new_Config box nonces now1 now2 consentToken expectedActHash =
             (None, nonces')"
  shows "\<exists>token n e.
           consentToken = Some token \<and> signature_verifies P box token \<and>
           exp_of P token = Some e \<and> now1 \<le> e \<and>
           aud_of P token = Some (consentAudience new_Config) \<and>
           nonce_of P token = Some n \<and> n \<noteq> [] \<and> \<not> isBlank n \<and>
           seen (cleanup nonces now2) n = None \<and>
           nonces' = (cleanup nonces now2)\<lparr>seen := (seen (cleanup nonces now2))(n \<mapsto> now2)\<rparr> \<and>
           act_hash_of P token = Some expectedActHash"
proof -
  have rc: "requireConsent new_Config" by (simp add: new_Config_def)
  from assms rc obtain token where t: "consentToken = Some token"
    by (cases consentToken) (auto simp: verifyConsent_def)
  from assms rc t obtain m where m: "verifySignedToken P box token now1 = Inr m"
    by (cases "verifySignedToken P box token now1")
       (auto simp: verifyConsent_def split: if_splits)
  from assms rc t m have
    aud: "asString (map_of m ''aud'') = Some (consentAudience new_Config)" and
    cs: "checkAndStore nonces (asString (map_of m ''nonce'')) now2 = (True, nonces')" and
    ah: "asString (map_of m ''act_hash'') = Some expectedActHash"
    by (auto simp: verifyConsent_def split: if_splits prod.splits)
  from checkAndStore_True[OF cs] obtain n where
    n: "asString (map_of m ''nonce'') = Some n" "\<not> isBlank n"
       "seen (cleanup nonces now2) n = None"
       "nonces' = (cleanup nonces now2)\<lparr>seen := (seen (cleanup nonces now2))(n \<mapsto> now2)\<rparr>"
    by blast
  from n(2) have ne: "n \<noteq> []" using isBlank_Nil by auto
  from verifySignedToken_Inr[OF m] aud ah n ne t show ?thesis
    by (auto simp: aud_of_def nonce_of_def act_hash_of_def)
qed

lemma checkAndStore_keeps:
  "seen c n = Some t \<Longrightarrow> now - t \<le> ttlSec c \<Longrightarrow>
   seen (snd (checkAndStore c nonce now)) n = Some t \<and>
   ttlSec (snd (checkAndStore c nonce now)) = ttlSec c"
  by (auto simp: checkAndStore_def cleanup_def Let_def split: option.splits)

lemma verifyConsent_keeps:
  assumes "seen c n = Some t" and "now2 - t \<le> ttlSec c"
  shows "seen (snd (verifyConsent P cfg box c now1 now2 consentToken expectedActHash)) n = Some t \<and>
         ttlSec (snd (verifyConsent P cfg box c now1 now2 consentToken expectedActHash)) = ttlSec c"
proof -
  have cs: "seen (snd (checkAndStore c nonce now2)) n = Some t"
    "ttlSec (snd (checkAndStore c nonce now2)) = ttlSec c" for nonce
    using checkAndStore_keeps[OF assms] by simp_all
  show ?thesis
    by (simp add: verifyConsent_def case_prod_beta cs assms(1) split: option.splits sum.splits)
qed

lemma verify_all_keeps:
  "seen c n = Some t \<Longrightarrow> \<forall>call \<in> set calls. fst (snd call) - t \<le> ttlSec c \<Longrightarrow>
   seen (verify_all P cfg box c calls) n = Some t \<and>
   ttlSec (verify_all P cfg box c calls) = ttlSec c"
proof (induction calls arbitrary: c)
  case Nil
  then show ?case by simp
next
  case (Cons call calls)
  obtain now1 now2 tok h where call: "call = (now1, now2, tok, h)" by (cases call) auto
  let ?c = "snd (verifyConsent P cfg box c now1 now2 tok h)"
  from Cons.prems call have "now2 - t \<le> ttlSec c" by simp
  from verifyConsent_keeps[OF Cons.prems(1) this, of P cfg box now1 tok h]
  have k: "seen ?c n = Some t" "ttlSec ?c = ttlSec c" by simp_all
  from Cons.prems(2) k(2) have "\<forall>call \<in> set calls. fst (snd call) - t \<le> ttlSec ?c" by simp
  from Cons.IH[OF k(1) this] k(2) show ?case by (simp add: call)
qed

lemma first_success_records:
  assumes "verifyConsent P new_Config box nonces now1 now2 (Some token) expectedActHash =
             (None, nonces')"
    and "ttlSec nonces = nonceTtlSeconds new_Config"
  obtains n where "nonce_of P token = Some n" "seen nonces' n = Some now2"
    "ttlSec nonces' = nonceTtlSeconds new_Config"
proof -
  from verifyConsent_success[OF assms(1)] obtain n where
    n: "nonce_of P token = Some n"
       "nonces' = (cleanup nonces now2)\<lparr>seen := (seen (cleanup nonces now2))(n \<mapsto> now2)\<rparr>"
    by auto
  have "seen nonces' n = Some now2" "ttlSec nonces' = nonceTtlSeconds new_Config"
    using assms(2) by (simp_all add: n(2) cleanup_def)
  with n(1) that show ?thesis by blast
qed

lemma verifyConsent_replay_window:
  assumes first: "verifyConsent P new_Config box nonces now1 now2 (Some token) expectedActHash =
                    (None, nonces')"
    and ttl: "ttlSec nonces = nonceTtlSeconds new_Config"
    and calls: "\<forall>call \<in> set calls. fst (snd call) - now2 \<le> nonceTtlSeconds new_Config"
    and later: "now2' - now2 \<le> nonceTtlSeconds new_Config"
    and same: "nonce_of P token' = nonce_of P token"
  shows "fst (verifyConsent P new_Config box (verify_all P new_Config box nonces' calls)
                now1' now2' (Some token') expectedActHash') \<noteq> None"
proof
  let ?c = "verify_all P new_Config box nonces' calls"
  assume "fst (verifyConsent P new_Config box ?c now1' now2' (Some token') expectedActHash') = None"
  then obtain nonces'' where
    second: "verifyConsent P new_Config box ?c now1' now2' (Some token') expectedActHash' =
               (None, nonces'')"
    by (cases "verifyConsent P new_Config box ?c now1' now2' (Some token') expectedActHash'") auto
  from first ttl obtain n where
    n: "nonce_of P token = Some n" and s: "seen nonces' n = Some now2" and
    t: "ttlSec nonces' = nonceTtlSeconds new_Config"
    by (rule first_success_records)
  from calls t have "\<forall>call \<in> set calls. fst (snd call) - now2 \<le> ttlSec nonces'" by simp
  from verify_all_keeps[OF s this, of P new_Config box]
  have k: "seen ?c n = Some now2" "ttlSec ?c = nonceTtlSeconds new_Config"
    using t by simp_all
  from verifyConsent_success[OF second] same n have "seen (cleanup ?c now2') n = None"
    by auto
  moreover have "seen (cleanup ?c now2') n = Some now2"
    using later k by (simp add: cleanup_def)
  ultimately show False by simp
qed

lemma verifyConsent_same_token_once:
  assumes first: "verifyConsent P new_Config box nonces now1 now2 (Some token) expectedActHash =
                    (None, nonces')"
    and ttl: "ttlSec nonces = nonceTtlSeconds new_Config"
    and life: "\<forall>e. exp_of P token = Some e \<longrightarrow>
                 e + (now2' - now1') - now2 \<le> nonceTtlSeconds new_Config"
  shows "fst (verifyConsent P new_Config box nonces' now1' now2' (Some token) expectedActHash')
           \<noteq> None"
proof
  assume "fst (verifyConsent P new_Config box nonces' now1' now2' (Some token) expectedActHash')
            = None"
  then obtain nonces'' where
    second: "verifyConsent P new_Config box nonces' now1' now2' (Some token) expectedActHash' =
               (None, nonces'')"
    by (cases "verifyConsent P new_Config box nonces' now1' now2' (Some token) expectedActHash'")
       auto
  from first ttl obtain n where
    n: "nonce_of P token = Some n" and s: "seen nonces' n = Some now2" and
    t: "ttlSec nonces' = nonceTtlSeconds new_Config"
    by (rule first_success_records)
  from verifyConsent_success[OF second] n obtain e where
    e: "exp_of P token = Some e" "now1' \<le> e" and gone: "seen (cleanup nonces' now2') n = None"
    by auto
  from gone s t have "now2' - now2 > nonceTtlSeconds new_Config"
    by (auto simp: cleanup_def split: if_splits)
  with life e show False by fastforce
qed

lemma verifyConsent_wrong_action:
  assumes "act_hash_of P token \<noteq> Some expectedActHash"
  shows "fst (verifyConsent P new_Config box nonces now1 now2 (Some token) expectedActHash) \<noteq> None"
proof
  assume "fst (verifyConsent P new_Config box nonces now1 now2 (Some token) expectedActHash) = None"
  then obtain nonces' where
    "verifyConsent P new_Config box nonces now1 now2 (Some token) expectedActHash = (None, nonces')"
    by (cases "verifyConsent P new_Config box nonces now1 now2 (Some token) expectedActHash") auto
  from verifyConsent_success[OF this] assms show False by auto
qed

lemma toy_first:
  "fst (verifyConsent toy_platform new_Config toy_box (new_NonceCache 300) 0 0 (Some toy_token)
          ''h-ask-X'') = None"
  by code_simp

lemma toy_second:
  "fst (verifyConsent toy_platform new_Config toy_box
          (snd (verifyConsent toy_platform new_Config toy_box (new_NonceCache 300) 0 0
                  (Some toy_token) ''h-ask-X''))
          301 301 (Some toy_token) ''h-ask-X'') = None"
  by code_simp

lemma toy_at_expiry:
  "fst (verifyConsent toy_platform new_Config toy_box (new_NonceCache 300) 1000 1000
          (Some toy_token) ''h-ask-X'') = None"
  by code_simp

lemma toy_exp: "exp_of toy_platform toy_token = Some 1000"
  by code_simp

text \<open>
  Claim C9, as stated, has \<open>verifyConsent\<close> succeed only when the expiry is in the future
  and the nonce was never seen before, a second presentation of the same token being
  rejected. The code accepts a token in the very second of its expiry; and the cache
  forgets a nonce after its TTL of 300 seconds, so a token that lives longer is accepted
  twice, 301 seconds apart.
\<close>

theorem C9_verifyConsent_counterexample:
  "exp_of toy_platform toy_token = Some 1000 \<and>
   fst (verifyConsent toy_platform new_Config toy_box (new_NonceCache 300) 1000 1000
          (Some toy_token) ''h-ask-X'') = None \<and>
   fst (verifyConsent toy_platform new_Config toy_box (new_NonceCache 300) 0 0 (Some toy_token)
          ''h-ask-X'') = None \<and>
   fst (verifyConsent toy_platform new_Config toy_box
          (snd (verifyConsent toy_platform new_Config toy_box (new_NonceCache 300) 0 0
                  (Some toy_token) ''h-ask-X''))
          301 301 (Some toy_token) ''h-ask-X'') = None"
  using toy_exp toy_at_expiry toy_first toy_second by simp

text \<open>
  The two readings of the clock matter at the edge: after a success at second 700, the
  same token, which expires at second 1000, passes the expiry check at second 1000 and,
  the clock having ticked, meets at second 1001 a cache that has just dropped its nonce.
\<close>

lemma toy_tick_between_readings:
  "fst (verifyConsent toy_platform new_Config toy_box (new_NonceCache 300) 700 700
          (Some toy_token) ''h-ask-X'') = None \<and>
   fst (verifyConsent toy_platform new_Config toy_box
          (snd (verifyConsent toy_platform new_Config toy_box (new_NonceCache 300) 700 700
                  (Some toy_token) ''h-ask-X''))
          1000 1001 (Some toy_token) ''h-ask-X'') = None \<and>
   fst (verifyConsent toy_platform new_Config toy_box
          (snd (verifyConsent toy_platform new_Config toy_box (new_NonceCache 300) 700 700
                  (Some toy_token) ''h-ask-X''))
          1000 1000 (Some toy_token) ''h-ask-X'') \<noteq> None"
  by code_simp

text \<open>
  Claim C9, amended. A call of \<open>verifyConsent\<close> reads the clock for the expiry (\<open>now1\<close>)
  and again for the nonce cache (\<open>now2\<close>). (1) It succeeds only when the signature of the
  token verifies under the consent key, its \<open>exp\<close> is present and not before the second
  \<open>now1\<close>, its \<open>aud\<close> is the configured consent audience, its nonce is not blank (so not
  empty) and is not in the nonce cache once the entries older than the TTL at \<open>now2\<close> are
  dropped, and its \<open>act_hash\<close> is the expected hash; a success records the nonce with the
  time \<open>now2\<close>. (2) As long as the cache is read within the TTL of that time, whatever
  verifications come in between, a verification that presents the same nonce fails. (3) A
  second presentation of the same token fails whenever its expiry, plus the delay between
  the two readings of the second call, is no later than the TTL after the time recorded by
  the first. (4) A token presented against another action's hash fails.
\<close>

theorem C9_verifyConsent:
  "(verifyConsent P new_Config box nonces now1 now2 consentToken expectedActHash =
      (None, nonces') \<longrightarrow>
      (\<exists>token n e.
         consentToken = Some token \<and> signature_verifies P box token \<and>
         exp_of P token = Some e \<and> now1 \<le> e \<and>
         aud_of P token = Some (consentAudience new_Config) \<and>
         nonce_of P token = Some n \<and> n \<noteq> [] \<and> \<not> isBlank n \<and>
         seen (cleanup nonces now2) n = None \<and>
         nonces' = (cleanup nonces now2)\<lparr>seen := (seen (cleanup nonces now2))(n \<mapsto> now2)\<rparr> \<and>
         act_hash_of P token = Some expectedActHash)) \<and>
   (\<forall>token token' calls now1' now2' h'.
      consentToken = Some token \<and>
      verifyConsent P new_Config box nonces now1 now2 (Some token) expectedActHash =
        (None, nonces') \<and>
      ttlSec nonces = nonceTtlSeconds new_Config \<and>
      (\<forall>call \<in> set calls. fst (snd call) - now2 \<le> nonceTtlSeconds new_Config) \<and>
      now2' - now2 \<le> nonceTtlSeconds new_Config \<and>
      nonce_of P token' = nonce_of P token \<longrightarrow>
      fst (verifyConsent P new_Config box (verify_all P new_Config box nonces' calls)
             now1' now2' (Some token') h') \<noteq> None) \<and>
   (\<forall>token now1' now2' h'.
      consentToken = Some token \<and>
      verifyConsent P new_Config box nonces now1 now2 (Some token) expectedActHash =
        (None, nonces') \<and>
      ttlSec nonces = nonceTtlSeconds new_Config \<and>
      (\<forall>e. exp_of P token = Some e \<longrightarrow>
         e + (now2' - now1') - now2 \<le> nonceTtlSeconds new_Config) \<longrightarrow>
      fst (verifyConsent P new_Config box nonces' now1' now2' (Some token) h') \<noteq> None) \<and>
   (\<forall>token. act_hash_of P token \<noteq> Some expectedActHash \<longrightarrow>
      fst (verifyConsent P new_Config box nonces now1 now2 (Some token) expectedActHash) \<noteq> None)"
proof (intro conjI allI impI)
  assume "verifyConsent P new_Config box nonces now1 now2 consentToken expectedActHash =
            (None, nonces')"
  from verifyConsent_success[OF this]
  show "\<exists>token n e.
         consentToken = Some token \<and> signature_verifies P box token \<and>
         exp_of P token = Some e \<and> now1 \<le> e \<and>
         aud_of P token = Some (consentAudience new_Config) \<and>
         nonce_of P token = Some n \<and> n \<noteq> [] \<and> \<not> isBlank n \<and>
         seen (cleanup nonces now2) n = None \<and>
         nonces' = (cleanup nonces now2)\<lparr>seen := (seen (cleanup nonces now2))(n \<mapsto> now2)\<rparr> \<and>
         act_hash_of P token = Some expectedActHash" .
next
  fix token token' now1' now2' h' and calls :: "(int \<times> int \<times> string option \<times> string) list"
  assume "consentToken = Some token \<and>
      verifyConsent P new_Config box nonces now1 now2 (Some token) expectedActHash =
        (None, nonces') \<and>
      ttlSec nonces = nonceTtlSeconds new_Config \<and>
      (\<forall>call \<in> set calls. fst (snd call) - now2 \<le> nonceTtlSeconds new_Config) \<and>
      now2' - now2 \<le> nonceTtlSeconds new_Config \<and>
      nonce_of P token' = nonce_of P token"
  then show "fst (verifyConsent P new_Config box (verify_all P new_Config box nonces' calls)
             now1' now2' (Some token') h') \<noteq> None"
    using verifyConsent_replay_window[of P box nonces now1 now2 token expectedActHash nonces'
        calls now2' token' now1' h']
    by blast
next
  fix token now1' now2' h'
  assume "consentToken = Some token \<and>
      verifyConsent P new_Config box nonces now1 now2 (Some token) expectedActHash =
        (None, nonces') \<and>
      ttlSec nonces = nonceTtlSeconds new_Config \<and>
      (\<forall>e. exp_of P token = Some e \<longrightarrow>
         e + (now2' - now1') - now2 \<le> nonceTtlSeconds new_Config)"
  then show "fst (verifyConsent P new_Config box nonces' now1' now2' (Some token) h') \<noteq> None"
    using verifyConsent_same_token_once[of P box nonces now1 now2 token expectedActHash nonces'
        now2' now1' h']
    by blast
next
  fix token assume "act_hash_of P token \<noteq> Some expectedActHash"
  then show "fst (verifyConsent P new_Config box nonces now1 now2 (Some token) expectedActHash)
               \<noteq> None"
    by (rule verifyConsent_wrong_action)
qed

lemma toy_first_800:
  "fst (verifyConsent toy_platform new_Config toy_box (new_NonceCache 300) 800 800
          (Some toy_token) ''h-ask-X'') = None"
  by code_simp

lemma toy_act_hash: "act_hash_of toy_platform toy_token = Some ''h-ask-X''"
  by code_simp

theorem C9_verifyConsent_witness:
  "verifyConsent toy_platform new_Config toy_box (new_NonceCache 300) 800 800 (Some toy_token)
     ''h-ask-X'' =
     (None, snd (verifyConsent toy_platform new_Config toy_box (new_NonceCache 300) 800 800
                   (Some toy_token) ''h-ask-X'')) \<and>
   signature_verifies toy_platform toy_box toy_token \<and>
   aud_of toy_platform toy_token = Some ''oi-runtime'' \<and>
   fst (verifyConsent toy_platform new_Config toy_box
          (snd (verifyConsent toy_platform new_Config toy_box (new_NonceCache 300) 800 800
                  (Some toy_token) ''h-ask-X''))
          900 901 (Some toy_token) ''h-ask-X'') \<noteq> None \<and>
   exp_of toy_platform toy_token = Some 1000 \<and>
   1000 + (1001 - 1000) - 800 \<le> nonceTtlSeconds new_Config \<and>
   fst (verifyConsent toy_platform new_Config toy_box
          (snd (verifyConsent toy_platform new_Config toy_box (new_NonceCache 300) 800 800
                  (Some toy_token) ''h-ask-X''))
          1000 1001 (Some toy_token) ''h-ask-X'') \<noteq> None \<and>
   fst (verifyConsent toy_platform new_Config toy_box (new_NonceCache 300) 800 800
          (Some toy_token) ''h-ask-Y'') \<noteq> None"
proof -
  let ?c1 = "snd (verifyConsent toy_platform new_Config toy_box (new_NonceCache 300) 800 800
                    (Some toy_token) ''h-ask-X'')"
  have first: "verifyConsent toy_platform new_Config toy_box (new_NonceCache 300) 800 800
                 (Some toy_token) ''h-ask-X'' = (None, ?c1)"
    using toy_first_800 by (simp add: prod_eq_iff)
  note c9 = C9_verifyConsent[where P = toy_platform and box = toy_box
      and nonces = "new_NonceCache 300" and ?now1.0 = 800 and ?now2.0 = 800
      and consentToken = "Some toy_token" and expectedActHash = "''h-ask-X''"
      and nonces' = ?c1]
  from c9 first have
    sv: "signature_verifies toy_platform toy_box toy_token" and
    au: "aud_of toy_platform toy_token = Some ''oi-runtime''"
    by (auto simp: new_Config_def)
  have ttl: "ttlSec (new_NonceCache 300) = nonceTtlSeconds new_Config"
    by (simp add: new_NonceCache_def new_Config_def)
  have win: "(901::int) - 800 \<le> nonceTtlSeconds new_Config"
    by (simp add: new_Config_def)
  have calls: "\<forall>call \<in> set ([] :: (int \<times> int \<times> string option \<times> string) list).
                 fst (snd call) - 800 \<le> nonceTtlSeconds new_Config"
    by simp
  from c9 have
    "Some toy_token = Some toy_token \<and>
     verifyConsent toy_platform new_Config toy_box (new_NonceCache 300) 800 800 (Some toy_token)
       ''h-ask-X'' = (None, ?c1) \<and>
     ttlSec (new_NonceCache 300) = nonceTtlSeconds new_Config \<and>
     (\<forall>call \<in> set ([] :: (int \<times> int \<times> string option \<times> string) list).
        fst (snd call) - 800 \<le> nonceTtlSeconds new_Config) \<and>
     901 - 800 \<le> nonceTtlSeconds new_Config \<and>
     nonce_of toy_platform toy_token = nonce_of toy_platform toy_token \<longrightarrow>
     fst (verifyConsent toy_platform new_Config toy_box
            (verify_all toy_platform new_Config toy_box ?c1 []) 900 901 (Some toy_token)
            ''h-ask-X'') \<noteq> None"
    by blast
  with first ttl win calls have
    replay: "fst (verifyConsent toy_platform new_Config toy_box ?c1 900 901 (Some toy_token)
                    ''h-ask-X'') \<noteq> None"
    by simp
  have life: "\<forall>e. exp_of toy_platform toy_token = Some e \<longrightarrow>
                e + (1001 - 1000) - 800 \<le> nonceTtlSeconds new_Config"
    using toy_exp by (simp add: new_Config_def)
  from c9 have
    "Some toy_token = Some toy_token \<and>
     verifyConsent toy_platform new_Config toy_box (new_NonceCache 300) 800 800 (Some toy_token)
       ''h-ask-X'' = (None, ?c1) \<and>
     ttlSec (new_NonceCache 300) = nonceTtlSeconds new_Config \<and>
     (\<forall>e. exp_of toy_platform toy_token = Some e \<longrightarrow>
        e + (1001 - 1000) - 800 \<le> nonceTtlSeconds new_Config) \<longrightarrow>
     fst (verifyConsent toy_platform new_Config toy_box ?c1 1000 1001 (Some toy_token)
            ''h-ask-X'') \<noteq> None"
    by blast
  with first ttl life have
    once: "fst (verifyConsent toy_platform new_Config toy_box ?c1 1000 1001 (Some toy_token)
                  ''h-ask-X'') \<noteq> None"
    by blast
  have "act_hash_of toy_platform toy_token \<noteq> Some ''h-ask-Y''"
    using toy_act_hash by simp
  with C9_verifyConsent[where P = toy_platform and box = toy_box
      and nonces = "new_NonceCache 300" and ?now1.0 = 800 and ?now2.0 = 800
      and consentToken = "Some toy_token" and expectedActHash = "''h-ask-Y''"
      and nonces' = ?c1]
  have other: "fst (verifyConsent toy_platform new_Config toy_box (new_NonceCache 300) 800 800
                      (Some toy_token) ''h-ask-Y'') \<noteq> None"
    by blast
  have bound: "1000 + (1001 - 1000) - 800 \<le> nonceTtlSeconds new_Config"
    by (simp add: new_Config_def)
  from first sv au replay toy_exp bound once other show ?thesis by blast
qed

end
